theory Spec2Isabelle
  imports
    Main
    "HOL-Library.Word"
    "HOL-Library.Char_ord"
    "HOL-Library.List_Lexorder"
    "HOL-Library.Multiset"
    "HOL-Library.AList"
begin

unbundle bit_operations_syntax

section \<open>Canonical Hasher\<close>

text \<open>
  \<^verbatim>\<open>src/managers/payment.ts\<close> imports \<^verbatim>\<open>createMasumiInputHash\<close> and
  \<^verbatim>\<open>createMasumiOutputHash\<close> from \<^verbatim>\<open>../utils/hashing\<close>. The definitions of this section
  follow section 4.1 of the specification: a canonical serialisation of the payload, the
  separator, the salt, and a 256-bit digest of the resulting bytes, printed as lowercase hex.
\<close>

subsection \<open>The digest in hexadecimal\<close>

text \<open>
  The digest function itself belongs to the platform's cryptography library, and the
  specification admits "SHA-256 or equivalent 256-bit collision-resistant hash": it is an
  argument, a function from the bytes of a text to 256 bits. A \<^typ>\<open>string\<close> is a list of
  bytes: the UTF-8 encoding of the text.
\<close>

type_synonym digest = "string \<Rightarrow> 256 word"

definition hexdigit :: "nat \<Rightarrow> char" where
  "hexdigit n = ''0123456789abcdef'' ! n"

text \<open>The 64 nibbles of the digest, the most significant first.\<close>

definition hex256 :: "256 word \<Rightarrow> string" where
  "hex256 w = map (\<lambda>i. hexdigit (unat (drop_bit (4 * (63 - i)) w AND 15))) [0..<64]"

subsection \<open>Canonical serialisation\<close>

text \<open>
  A structured payload is a JSON value. The members of an object are kept in the order in
  which the keys were inserted, as a JavaScript object enumerates them. Numbers are a type
  parameter \<open>'n\<close>: the serialiser takes the number format as an argument.
\<close>

datatype 'n json =
    JNull
  | JBool bool
  | JNum 'n
  | JStr string
  | JArr "'n json list"
  | JObj "(string \<times> 'n json) list"

definition hex4 :: "nat \<Rightarrow> string" where
  "hex4 n = [hexdigit 0, hexdigit 0, hexdigit (n div 16), hexdigit (n mod 16)]"

text \<open>The escapes of a JSON string literal (the specification does not spell them out).\<close>

definition escape_char :: "char \<Rightarrow> string" where
  "escape_char c =
     (if c = CHR 0x22 then [CHR 0x5C, CHR 0x22]
      else if c = CHR 0x5C then [CHR 0x5C, CHR 0x5C]
      else if c = CHR 0x08 then [CHR 0x5C, CHR ''b'']
      else if c = CHR 0x0C then [CHR 0x5C, CHR ''f'']
      else if c = CHR 0x0A then [CHR 0x5C, CHR ''n'']
      else if c = CHR 0x0D then [CHR 0x5C, CHR ''r'']
      else if c = CHR 0x09 then [CHR 0x5C, CHR ''t'']
      else if (of_char c :: nat) < 32 then [CHR 0x5C, CHR ''u''] @ hex4 (of_char c)
      else [c])"

definition quote :: "string \<Rightarrow> string" where
  "quote s = [CHR 0x22] @ concat (map escape_char s) @ [CHR 0x22]"

fun join :: "string \<Rightarrow> string list \<Rightarrow> string" where
  "join sep [] = []"
| "join sep [x] = x"
| "join sep (x # y # ys) = x @ sep @ join sep (y # ys)"

text \<open>
  Modelled from the spec: the canonical serialisation of \<^verbatim>\<open>utils/hashing.ts\<close>, which is
  not among the sources. Section 4.1: keys of every mapping sorted lexicographically, at
  every nesting level; no insignificant whitespace; one number format (the argument
  \<open>fmt\<close>); strings are UTF-8 bytes.
\<close>

fun canonical :: "('n \<Rightarrow> string) \<Rightarrow> 'n json \<Rightarrow> string" where
  "canonical fmt JNull = ''null''"
| "canonical fmt (JBool b) = (if b then ''true'' else ''false'')"
| "canonical fmt (JNum n) = fmt n"
| "canonical fmt (JStr s) = quote s"
| "canonical fmt (JArr xs) = ''['' @ join '','' (map (canonical fmt) xs) @ '']''"
| "canonical fmt (JObj kvs) =
     ''{'' @ join '',''
       (map (\<lambda>ks. quote (fst ks) @ '':'' @ snd ks)
         (sort_key fst (map (\<lambda>kv. (fst kv, canonical fmt (snd kv))) kvs))) @ ''}''"

text \<open>
  Modelled from the spec: the serialisation step of \<^verbatim>\<open>utils/hashing.ts\<close>. "If payload
  is already a string, it is used verbatim (no re-serialization)."
\<close>

definition serialize :: "('n \<Rightarrow> string) \<Rightarrow> 'n json \<Rightarrow> string" where
  "serialize fmt payload = (case payload of JStr s \<Rightarrow> s | _ \<Rightarrow> canonical fmt payload)"

text \<open>
  Modelled from the spec: \<^verbatim>\<open>hash(payload, salt)\<close> of \<^verbatim>\<open>utils/hashing.ts\<close>. "Digest =
  cryptographic hash (SHA-256 ...) of serialize(payload) + separator + salt, hex-encoded
  lowercase". The specification does not name the separator: it is the argument \<open>sep\<close>.
\<close>

definition hash ::
    "digest \<Rightarrow> ('n \<Rightarrow> string) \<Rightarrow> string \<Rightarrow> 'n json \<Rightarrow> string \<Rightarrow> string" where
  "hash dg fmt sep payload salt = hex256 (dg (serialize fmt payload @ sep @ salt))"

text \<open>
  Modelled from the spec: the two exports of \<^verbatim>\<open>utils/hashing.ts\<close>. "Two operations use
  this: inputHash = hash(inputData, purchaserId) at request-creation time, resultHash =
  hash(outputData, purchaserId) at result-submission time." \<^verbatim>\<open>submitResult\<close> passes a
  string as \<^verbatim>\<open>outputData\<close>.
\<close>

definition createMasumiInputHash ::
    "digest \<Rightarrow> ('n \<Rightarrow> string) \<Rightarrow> string \<Rightarrow> 'n json \<Rightarrow> string \<Rightarrow> string" where
  "createMasumiInputHash dg fmt sep inputData purchaser = hash dg fmt sep inputData purchaser"

definition createMasumiOutputHash ::
    "digest \<Rightarrow> ('n \<Rightarrow> string) \<Rightarrow> string \<Rightarrow> string \<Rightarrow> string \<Rightarrow> string" where
  "createMasumiOutputHash dg fmt sep outputData purchaser =
     hash dg fmt sep (JStr outputData) purchaser"

text \<open>
  A payload is well formed when no object has the same key twice, at any nesting level (a
  JavaScript object holds each key once).
\<close>

fun wf_json :: "'n json \<Rightarrow> bool" where
  "wf_json (JArr xs) = list_all wf_json xs"
| "wf_json (JObj kvs) = (distinct (map fst kvs) \<and> list_all (\<lambda>kv. wf_json (snd kv)) kvs)"
| "wf_json _ = True"

text \<open>
  \<open>reordered p q\<close>: \<open>q\<close> is \<open>p\<close> with the members of its objects inserted in another
  order, at any nesting level. Array elements keep their positions.
\<close>

inductive reordered :: "'n json \<Rightarrow> 'n json \<Rightarrow> bool" where
  same: "reordered j j"
| elements: "list_all2 reordered xs ys \<Longrightarrow> reordered (JArr xs) (JArr ys)"
| members: "list_all2 (\<lambda>a b. fst a = fst b \<and> reordered (snd a) (snd b)) kvs kvs' \<Longrightarrow>
     mset kvs' = mset kvs'' \<Longrightarrow> reordered (JObj kvs) (JObj kvs'')"

section \<open>Payment Lifecycle Engine: \<^verbatim>\<open>src/managers/payment.ts\<close>\<close>

subsection \<open>Data\<close>

datatype Network = Preprod | Mainnet

text \<open>
  Modelled from the spec: the type \<^verbatim>\<open>PaymentState\<close> of \<^verbatim>\<open>types/payment.ts\<close>, which is
  not among the sources: the enumeration of section 4.2.
\<close>

datatype PaymentState =
    WaitingForExternalAction
  | FundsLocked
  | ResultSubmitted
  | Withdrawn
  | RefundWithdrawn
  | DisputedWithdrawn

text \<open>
  The JavaScript value of \<^verbatim>\<open>onChainState\<close>: \<^verbatim>\<open>undefined\<close> (the field is left out of the
  response, or there is no entry to read it from), \<^verbatim>\<open>null\<close>, or a state. The manager
  compares two such values with \<^verbatim>\<open>!==\<close>, which tells \<^verbatim>\<open>undefined\<close> from \<^verbatim>\<open>null\<close>.
\<close>

datatype OnChainState = Undefined | Null | State PaymentState

text \<open>\<^verbatim>\<open>s || null\<close>, as the state-change event carries a state: a state or \<^verbatim>\<open>null\<close>.\<close>

definition orNull :: "OnChainState \<Rightarrow> PaymentState option" where
  "orNull s = (case s of State v \<Rightarrow> Some v | _ \<Rightarrow> None)"

text \<open>
  Modelled from the spec: the type \<^verbatim>\<open>PaymentRequest\<close> of \<^verbatim>\<open>types/payment.ts\<close>, which is
  not among the sources, with the fields of section 3 and of the response shape of
  section 6. The field \<open>requestedAction\<close> is \<^verbatim>\<open>NextAction.requestedAction\<close>.
\<close>

record PaymentRequest =
  blockchainIdentifier :: string
  identifierFromPurchaser :: string
  onChainState :: OnChainState
  payByTime :: string
  submitResultTime :: string
  requestedAction :: string
  requestedFunds :: "(string \<times> string) list"

text \<open>
  A JavaScript \<^verbatim>\<open>Date\<close>: a time value in milliseconds, or the invalid date. \<^verbatim>\<open>new Date(v)\<close>
  is invalid when \<open>v\<close> is further than 8.64e15 ms from the epoch.
\<close>

datatype JsDate = ValidDate int | InvalidDate

definition newDate :: "int \<Rightarrow> JsDate" where
  "newDate v = (if \<bar>v\<bar> \<le> 8640000000000000 then ValidDate v else InvalidDate)"

text \<open>
  \<^verbatim>\<open>CreatePaymentParams\<close>. \<^verbatim>\<open>inputData\<close> is a string or a record, as the tool layer
  (\<^verbatim>\<open>src/tools/index.ts\<close>) passes it; an omitted optional field is \<open>None\<close>.
\<close>

datatype 'n InputData = InputString string | InputRecord "(string \<times> 'n json) list"

record 'n CreatePaymentParams =
  param_identifierFromPurchaser :: string
  param_inputData :: "'n InputData option"
  param_payByTime :: "JsDate option"
  param_submitResultTime :: "JsDate option"
  param_metadata :: "string option"

text \<open>
  Modelled from the spec: the type \<^verbatim>\<open>MasumiPluginConfig\<close> of \<^verbatim>\<open>types/config.ts\<close>, which
  is not among the sources; the two fields the manager reads for its requests.
\<close>

record MasumiPluginConfig =
  agentIdentifier :: "string option"
  network :: Network

text \<open>The body of \<^verbatim>\<open>POST /payment\<close>, built by \<^verbatim>\<open>createPaymentRequest\<close>.\<close>

record CreatePaymentPayload =
  req_agentIdentifier :: string
  req_network :: Network
  req_paymentType :: string
  req_payByTime :: string
  req_submitResultTime :: string
  req_identifierFromPurchaser :: string
  req_inputHash :: "string option"
  req_metadata :: "string option"

text \<open>
  The four calls of the manager to \<^verbatim>\<open>this.client.post\<close>:
  \<^verbatim>\<open>/payment\<close>, \<^verbatim>\<open>/payment/resolve-blockchain-identifier\<close>,
  \<^verbatim>\<open>/payment/submit-result\<close> and \<^verbatim>\<open>/payment/authorize-refund\<close>, each with its body.
\<close>

datatype ApiRequest =
    PostPayment CreatePaymentPayload
  | PostResolveBlockchainIdentifier string Network
  | PostSubmitResult string Network string
  | PostAuthorizeRefund string Network

text \<open>
  What an operation throws: an \<^verbatim>\<open>Error\<close> of the manager with its message, the
  \<^verbatim>\<open>RangeError\<close> of \<^verbatim>\<open>toISOString\<close> on an invalid date, or whatever the API client
  rejected with (its cause).
\<close>

datatype thrown = Error string | RangeError string | Rejected string

text \<open>The events of \<^verbatim>\<open>PaymentManagerEvents\<close>, with their payloads.\<close>

datatype event =
    payment_created PaymentRequest
  | payment_state_changed string "PaymentState option" "PaymentState option" PaymentRequest
  | payment_funds_locked PaymentRequest
  | payment_result_submitted string string
  | payment_completed PaymentRequest
  | payment_refund_authorized string
  | payment_monitor_error string thrown

datatype console_line = ConsoleLog string | ConsoleWarn string | ConsoleError string

text \<open>
  The manager: its fields \<^verbatim>\<open>config\<close>, \<^verbatim>\<open>pendingPayments\<close>, \<^verbatim>\<open>statusMonitorInterval\<close>
  and \<^verbatim>\<open>isMonitoring\<close>, and what it does to the world: the events emitted, the requests
  sent to the API client, the console lines (the message, without the logged object), the
  interval timers that are set (handle and period) and the number of clock readings.
  \<^verbatim>\<open>pendingPayments\<close> is a JavaScript \<^verbatim>\<open>Map\<close>: the entries in insertion order.
\<close>

record PaymentManager =
  config :: MasumiPluginConfig
  pendingPayments :: "(string \<times> PaymentRequest) list"
  statusMonitorInterval :: "nat option"
  isMonitoring :: bool
  emitted :: "event list"
  requests :: "ApiRequest list"
  console :: "console_line list"
  timers :: "(nat \<times> nat) list"
  nextTimer :: nat
  clockReads :: nat

text \<open>
  The environment of a call: the answer of the remote service to a request (\<open>Inl\<close>: the
  call is rejected, with a cause), the clock (\<^verbatim>\<open>Date.now()\<close> at its n-th reading),
  \<^verbatim>\<open>Date.prototype.toISOString\<close> on a valid time value, and the three parameters of
  the hasher.
\<close>

record 'n env =
  post :: "ApiRequest \<Rightarrow> string + PaymentRequest"
  dateNow :: "nat \<Rightarrow> int"
  toISOString :: "int \<Rightarrow> string"
  sha256 :: digest
  formatNumber :: "'n \<Rightarrow> string"
  separator :: string

definition new_PaymentManager :: "MasumiPluginConfig \<Rightarrow> PaymentManager" where
  "new_PaymentManager cfg =
     \<lparr>config = cfg, pendingPayments = [], statusMonitorInterval = None, isMonitoring = False,
      emitted = [], requests = [], console = [], timers = [], nextTimer = 0, clockReads = 0\<rparr>"

subsection \<open>Effects\<close>

definition emit :: "event \<Rightarrow> PaymentManager \<Rightarrow> PaymentManager" where
  "emit e st = st\<lparr>emitted := emitted st @ [e]\<rparr>"

definition console_log :: "string \<Rightarrow> PaymentManager \<Rightarrow> PaymentManager" where
  "console_log msg st = st\<lparr>console := console st @ [ConsoleLog msg]\<rparr>"

definition console_warn :: "string \<Rightarrow> PaymentManager \<Rightarrow> PaymentManager" where
  "console_warn msg st = st\<lparr>console := console st @ [ConsoleWarn msg]\<rparr>"

definition console_error :: "string \<Rightarrow> PaymentManager \<Rightarrow> PaymentManager" where
  "console_error msg st = st\<lparr>console := console st @ [ConsoleError msg]\<rparr>"

text \<open>\<^verbatim>\<open>await this.client.post(path, body)\<close>: the request is sent, the service answers.\<close>

definition client_post ::
    "'n env \<Rightarrow> ApiRequest \<Rightarrow> PaymentManager \<Rightarrow> (string + PaymentRequest) \<times> PaymentManager" where
  "client_post env r st = (post env r, st\<lparr>requests := requests st @ [r]\<rparr>)"

definition Date_now :: "'n env \<Rightarrow> PaymentManager \<Rightarrow> int \<times> PaymentManager" where
  "Date_now env st = (dateNow env (clockReads st), st\<lparr>clockReads := clockReads st + 1\<rparr>)"

definition date_toISOString :: "'n env \<Rightarrow> JsDate \<Rightarrow> thrown + string" where
  "date_toISOString env d =
     (case d of ValidDate t \<Rightarrow> Inr (toISOString env t)
      | InvalidDate \<Rightarrow> Inl (RangeError ''Invalid time value''))"

definition setInterval :: "nat \<Rightarrow> PaymentManager \<Rightarrow> nat \<times> PaymentManager" where
  "setInterval ms st =
     (nextTimer st, st\<lparr>timers := timers st @ [(nextTimer st, ms)], nextTimer := nextTimer st + 1\<rparr>)"

definition clearInterval :: "nat \<Rightarrow> PaymentManager \<Rightarrow> PaymentManager" where
  "clearInterval t st = st\<lparr>timers := filter (\<lambda>tm. fst tm \<noteq> t) (timers st)\<rparr>"

text \<open>JavaScript truthiness of an optional string: \<^verbatim>\<open>undefined\<close> and \<^verbatim>\<open>''\<close> are falsy.\<close>

definition truthy :: "string option \<Rightarrow> bool" where
  "truthy s = (case s of None \<Rightarrow> False | Some v \<Rightarrow> v \<noteq> [])"

definition inputData_truthy :: "'n InputData \<Rightarrow> bool" where
  "inputData_truthy d = (case d of InputString s \<Rightarrow> s \<noteq> [] | InputRecord kvs \<Rightarrow> True)"

definition inputData_json :: "'n InputData \<Rightarrow> 'n json" where
  "inputData_json d = (case d of InputString s \<Rightarrow> JStr s | InputRecord kvs \<Rightarrow> JObj kvs)"

text \<open>The check mark and the money bag of the console messages, as UTF-8 bytes.\<close>

definition check_mark :: string where
  "check_mark = [CHR 0xE2, CHR 0x9C, CHR 0x93]"

definition money_bag :: string where
  "money_bag = [CHR 0xF0, CHR 0x9F, CHR 0x92, CHR 0xB0]"

text \<open>\<^verbatim>\<open>this.pendingPayments.set(id, p)\<close>: in place for a known key, at the end for a new one.\<close>

definition Map_set ::
    "string \<Rightarrow> PaymentRequest \<Rightarrow> PaymentManager \<Rightarrow> PaymentManager" where
  "Map_set k v st = st\<lparr>pendingPayments := AList.update k v (pendingPayments st)\<rparr>"

definition Map_get :: "PaymentManager \<Rightarrow> string \<Rightarrow> PaymentRequest option" where
  "Map_get st k = map_of (pendingPayments st) k"

subsection \<open>Operations\<close>

text \<open>
  An operation runs from its call to its return with no other operation of the manager in
  between (the single logical actor of section 5); it returns what it returns or throws,
  and the manager after it.
\<close>

text \<open>
  \<^verbatim>\<open>d || new Date(Date.now() + offset)\<close>: a \<^verbatim>\<open>Date\<close> object is truthy, so the clock is
  read only when the date is omitted.
\<close>

definition orDefaultDate ::
    "'n env \<Rightarrow> JsDate option \<Rightarrow> int \<Rightarrow> PaymentManager \<Rightarrow> JsDate \<times> PaymentManager" where
  "orDefaultDate env d offset st =
     (case d of
        Some v \<Rightarrow> (v, st)
      | None \<Rightarrow> (newDate (fst (Date_now env st) + offset), snd (Date_now env st)))"

definition createPaymentRequest ::
    "'n env \<Rightarrow> 'n CreatePaymentParams \<Rightarrow> PaymentManager
      \<Rightarrow> (thrown + PaymentRequest) \<times> PaymentManager" where
  "createPaymentRequest env params st =
     (if \<not> truthy (agentIdentifier (config st)) then
        (Inl (Error (''agentIdentifier not configured. '' @
           ''Please provision agent first or set agentIdentifier in config.'')), st)
      else
        let purchaser = param_identifierFromPurchaser params;
            inputHash =
              (case param_inputData params of
                 None \<Rightarrow> None
               | Some d \<Rightarrow>
                   if inputData_truthy d
                   then Some (createMasumiInputHash (sha256 env) (formatNumber env)
                                (separator env) (inputData_json d) purchaser)
                   else None);
            (payBy, st1) = orDefaultDate env (param_payByTime params) (12 * 60 * 60 * 1000) st;
            (submitBy, st2) =
              orDefaultDate env (param_submitResultTime params) (24 * 60 * 60 * 1000) st1
        in
          (case date_toISOString env payBy of
             Inl e \<Rightarrow> (Inl e, st2)
           | Inr payByIso \<Rightarrow>
          (case date_toISOString env submitBy of
             Inl e \<Rightarrow> (Inl e, st2)
           | Inr submitByIso \<Rightarrow>
          (let payload =
                 \<lparr>req_agentIdentifier = the (agentIdentifier (config st)),
                  req_network = network (config st),
                  req_paymentType = ''Web3CardanoV1'',
                  req_payByTime = payByIso,
                  req_submitResultTime = submitByIso,
                  req_identifierFromPurchaser = purchaser,
                  req_inputHash = (if truthy inputHash then inputHash else None),
                  req_metadata =
                    (if truthy (param_metadata params) then param_metadata params else None)\<rparr>;
               st3 = console_log ''Creating payment request...'' st2;
               (res, st4) = client_post env (PostPayment payload) st3
           in
             (case res of
                Inl cause \<Rightarrow> (Inl (Rejected cause), st4)
              | Inr response \<Rightarrow>
                  (let st5 = Map_set (blockchainIdentifier response) response st4;
                       st6 = emit (payment_created response) st5;
                       st7 = console_log (check_mark @ '' Payment request created:'') st6
                   in (Inr response, st7)))))))"

definition checkPaymentStatus ::
    "'n env \<Rightarrow> string \<Rightarrow> PaymentManager \<Rightarrow> (thrown + PaymentRequest) \<times> PaymentManager" where
  "checkPaymentStatus env blockchainId st =
     (let (res, st1) =
            client_post env (PostResolveBlockchainIdentifier blockchainId
                               (network (config st))) st
      in
        (case res of
           Inl cause \<Rightarrow> (Inl (Rejected cause), st1)
         | Inr response \<Rightarrow>
             (let existing = Map_get st1 blockchainId;
                  previousState =
                    (case existing of None \<Rightarrow> Undefined | Some p \<Rightarrow> onChainState p);
                  st2 = Map_set blockchainId response st1;
                  st3 =
                    (if previousState \<noteq> onChainState response then
                       (let st' = emit (payment_state_changed blockchainId
                                          (orNull previousState)
                                          (orNull (onChainState response)) response) st2
                        in
                          if onChainState response = State FundsLocked then
                            console_log (money_bag @ '' Payment received (FundsLocked):'')
                              (emit (payment_funds_locked response) st')
                          else if onChainState response = State Withdrawn then
                            console_log (check_mark @ '' Payment completed (Withdrawn):'')
                              (emit (payment_completed response) st')
                          else st')
                     else st2)
              in (Inr response, st3))))"

definition submitResult ::
    "'n env \<Rightarrow> string \<Rightarrow> string \<Rightarrow> PaymentManager
      \<Rightarrow> (thrown + PaymentRequest) \<times> PaymentManager" where
  "submitResult env blockchainId outputData st =
     (case Map_get st blockchainId of
        None \<Rightarrow>
          (Inl (Error (''Payment not found: '' @ blockchainId @ ''. '' @
             ''Call checkPaymentStatus() first or ensure payment was created via this manager.'')),
           st)
      | Some payment \<Rightarrow>
          (let resultHash =
                 createMasumiOutputHash (sha256 env) (formatNumber env) (separator env)
                   outputData (identifierFromPurchaser payment);
               st1 = console_log ''Submitting result...'' st;
               (res, st2) =
                 client_post env (PostSubmitResult blockchainId (network (config st))
                                    resultHash) st1
           in
             (case res of
                Inl cause \<Rightarrow> (Inl (Rejected cause), st2)
              | Inr response \<Rightarrow>
                  (let st3 = Map_set blockchainId response st2;
                       st4 = emit (payment_result_submitted blockchainId resultHash) st3;
                       st5 = console_log (check_mark @ '' Result submitted:'') st4
                   in (Inr response, st5)))))"

definition authorizeRefund ::
    "'n env \<Rightarrow> string \<Rightarrow> PaymentManager \<Rightarrow> (thrown + PaymentRequest) \<times> PaymentManager" where
  "authorizeRefund env blockchainId st =
     (let st1 = console_log ''Authorizing refund...'' st;
          (res, st2) =
            client_post env (PostAuthorizeRefund blockchainId (network (config st))) st1
      in
        (case res of
           Inl cause \<Rightarrow> (Inl (Rejected cause), st2)
         | Inr response \<Rightarrow>
             (let st3 = Map_set blockchainId response st2;
                  st4 = emit (payment_refund_authorized blockchainId) st3;
                  st5 = console_log (check_mark @ '' Refund authorized:'') st4
              in (Inr response, st5))))"

subsection \<open>Monitor Scheduler\<close>

definition completedStates :: "PaymentState list" where
  "completedStates = [Withdrawn, RefundWithdrawn, DisputedWithdrawn]"

text \<open>\<^verbatim>\<open>payment.onChainState && completedStates.includes(payment.onChainState)\<close>\<close>

definition isCompleted :: "PaymentRequest \<Rightarrow> bool" where
  "isCompleted payment =
     (case onChainState payment of State s \<Rightarrow> s \<in> set completedStates | _ \<Rightarrow> False)"

text \<open>
  The body of the timer callback, \<^verbatim>\<open>for (const [id, payment] of this.pendingPayments)\<close>.
  The loop visits the keys the map has when the cycle starts, in insertion order, and reads
  each entry when it reaches it. Within a cycle only \<^verbatim>\<open>checkPaymentStatus(id)\<close> writes
  to the map, on the key being visited, so the keys and their order do not change.
\<close>

fun pollEntries :: "'n env \<Rightarrow> string list \<Rightarrow> PaymentManager \<Rightarrow> PaymentManager" where
  "pollEntries env [] st = st"
| "pollEntries env (pid # ids) st =
     (case Map_get st pid of
        None \<Rightarrow> pollEntries env ids st
      | Some payment \<Rightarrow>
          if isCompleted payment then pollEntries env ids st
          else
            (case checkPaymentStatus env pid st of
               (Inr response, st') \<Rightarrow> pollEntries env ids st'
             | (Inl err, st') \<Rightarrow>
                 pollEntries env ids
                   (emit (payment_monitor_error pid err)
                      (console_error ''Payment status check failed:'' st'))))"

definition pollCycle :: "'n env \<Rightarrow> PaymentManager \<Rightarrow> PaymentManager" where
  "pollCycle env st = pollEntries env (map fst (pendingPayments st)) st"

text \<open>\<^verbatim>\<open>startStatusMonitoring(intervalMs: number = 30000)\<close>; \<open>None\<close>: the argument is omitted.\<close>

definition startStatusMonitoring :: "nat option \<Rightarrow> PaymentManager \<Rightarrow> PaymentManager" where
  "startStatusMonitoring intervalMs st =
     (if isMonitoring st then console_warn ''Payment monitoring already running'' st
      else
        (let ms = (case intervalMs of None \<Rightarrow> 30000 | Some v \<Rightarrow> v);
             st1 = (case statusMonitorInterval st of
                      Some t \<Rightarrow> clearInterval t st
                    | None \<Rightarrow> st);
             st2 = st1\<lparr>isMonitoring := True\<rparr>;
             (t, st3) = setInterval ms st2;
             st4 = st3\<lparr>statusMonitorInterval := Some t\<rparr>
         in console_log (check_mark @ '' Payment status monitoring started'') st4))"

definition stopStatusMonitoring :: "PaymentManager \<Rightarrow> PaymentManager" where
  "stopStatusMonitoring st =
     (case statusMonitorInterval st of
        None \<Rightarrow> st
      | Some t \<Rightarrow>
          console_log (check_mark @ '' Payment status monitoring stopped'')
            ((clearInterval t st)\<lparr>statusMonitorInterval := None, isMonitoring := False\<rparr>))"

text \<open>The decimal digits of a number, as a template literal prints it.\<close>

fun decimal :: "nat \<Rightarrow> string" where
  "decimal n =
     (if n < 10 then [char_of (48 + n)] else decimal (n div 10) @ [char_of (48 + n mod 10)])"

definition getPayment :: "PaymentManager \<Rightarrow> string \<Rightarrow> PaymentRequest option" where
  "getPayment st blockchainId = Map_get st blockchainId"

definition cleanupCompletedPayments :: "PaymentManager \<Rightarrow> nat \<times> PaymentManager" where
  "cleanupCompletedPayments st =
     (let removed = length (filter (\<lambda>kv. isCompleted (snd kv)) (pendingPayments st));
          st1 = st\<lparr>pendingPayments := filter (\<lambda>kv. \<not> isCompleted (snd kv)) (pendingPayments st)\<rparr>
      in (removed,
          if removed > 0
          then console_log (check_mark @ '' Cleaned up '' @ decimal removed @
                 '' completed payment(s)'') st1
          else st1))"

definition close :: "PaymentManager \<Rightarrow> PaymentManager" where
  "close st =
     console_log (check_mark @ '' PaymentManager closed'')
       ((stopStatusMonitoring st)\<lparr>pendingPayments := []\<rparr>)"

text \<open>
  What happens to a manager over its life: the calls of its methods, each in the
  environment of its time, and the firing of a timer that is set. The methods that write no
  field of the manager are left out: \<^verbatim>\<open>getWalletBalance\<close> and \<^verbatim>\<open>listPayments\<close> (two
  \<^verbatim>\<open>GET\<close> calls), \<^verbatim>\<open>getPendingPayments\<close> and \<^verbatim>\<open>getPayment\<close>.
\<close>

datatype 'n action =
    CreatePaymentRequest "'n CreatePaymentParams"
  | CheckPaymentStatus string
  | SubmitResult string string
  | AuthorizeRefund string
  | StartStatusMonitoring "nat option"
  | StopStatusMonitoring
  | TimerFires
  | CleanupCompletedPayments
  | Close

definition step :: "PaymentManager \<Rightarrow> 'n env \<times> 'n action \<Rightarrow> PaymentManager" where
  "step st ea =
     (case snd ea of
        CreatePaymentRequest params \<Rightarrow> snd (createPaymentRequest (fst ea) params st)
      | CheckPaymentStatus i \<Rightarrow> snd (checkPaymentStatus (fst ea) i st)
      | SubmitResult i out \<Rightarrow> snd (submitResult (fst ea) i out st)
      | AuthorizeRefund i \<Rightarrow> snd (authorizeRefund (fst ea) i st)
      | StartStatusMonitoring ms \<Rightarrow> startStatusMonitoring ms st
      | StopStatusMonitoring \<Rightarrow> stopStatusMonitoring st
      | TimerFires \<Rightarrow> (if timers st = [] then st else pollCycle (fst ea) st)
      | CleanupCompletedPayments \<Rightarrow> snd (cleanupCompletedPayments st)
      | Close \<Rightarrow> close st)"

definition run :: "MasumiPluginConfig \<Rightarrow> ('n env \<times> 'n action) list \<Rightarrow> PaymentManager" where
  "run cfg acts = foldl step (new_PaymentManager cfg) acts"

subsection \<open>Notions used in the statements\<close>

text \<open>
  \<^verbatim>\<open>existing?.onChainState\<close>: the value cached for an identifier, \<^verbatim>\<open>undefined\<close> when the
  store has no entry for it.
\<close>

definition cachedState :: "PaymentManager \<Rightarrow> string \<Rightarrow> OnChainState" where
  "cachedState st k = (case Map_get st k of None \<Rightarrow> Undefined | Some p \<Rightarrow> onChainState p)"


definition is_monitor_error :: "event \<Rightarrow> bool" where
  "is_monitor_error e = (case e of payment_monitor_error _ _ \<Rightarrow> True | _ \<Rightarrow> False)"

text \<open>The entries of the store that a polling cycle has to refresh.\<close>

definition nonTerminal :: "PaymentManager \<Rightarrow> (string \<times> PaymentRequest) list" where
  "nonTerminal st = filter (\<lambda>kv. \<not> isCompleted (snd kv)) (pendingPayments st)"

definition resolveRequest :: "PaymentManager \<Rightarrow> string \<Rightarrow> ApiRequest" where
  "resolveRequest st k = PostResolveBlockchainIdentifier k (network (config st))"

text \<open>The manager holds at most the timer of its handle, and monitors exactly when it holds one.\<close>

definition timer_inv :: "PaymentManager \<Rightarrow> bool" where
  "timer_inv st =
     (map fst (timers st) = (case statusMonitorInterval st of None \<Rightarrow> [] | Some t \<Rightarrow> [t])
      \<and> (isMonitoring st \<longleftrightarrow> statusMonitorInterval st \<noteq> None))"

text \<open>
  One turn of the loop of the timer callback, and whether the loop refreshes the entry of
  a key: the entry exists and is not in a completed state.
\<close>

definition refreshable :: "PaymentManager \<Rightarrow> string \<Rightarrow> bool" where
  "refreshable st k = (case Map_get st k of None \<Rightarrow> False | Some p \<Rightarrow> \<not> isCompleted p)"

definition visit :: "'n env \<Rightarrow> string \<Rightarrow> PaymentManager \<Rightarrow> PaymentManager" where
  "visit env pid st = pollEntries env [pid] st"

text \<open>
  The body that \<^verbatim>\<open>createPaymentRequest\<close> builds from the two ISO strings, and the rest of
  the operation once the body is built: the log line, the request and what follows the
  answer.
\<close>

definition paymentPayload ::
    "'n env \<Rightarrow> 'n CreatePaymentParams \<Rightarrow> PaymentManager \<Rightarrow> string \<Rightarrow> string
      \<Rightarrow> CreatePaymentPayload" where
  "paymentPayload env params st payByIso submitByIso =
     \<lparr>req_agentIdentifier = the (agentIdentifier (config st)),
      req_network = network (config st),
      req_paymentType = ''Web3CardanoV1'',
      req_payByTime = payByIso,
      req_submitResultTime = submitByIso,
      req_identifierFromPurchaser = param_identifierFromPurchaser params,
      req_inputHash =
        (let inputHash =
           (case param_inputData params of
              None \<Rightarrow> None
            | Some d \<Rightarrow>
                if inputData_truthy d
                then Some (createMasumiInputHash (sha256 env) (formatNumber env)
                             (separator env) (inputData_json d)
                             (param_identifierFromPurchaser params))
                else None)
         in if truthy inputHash then inputHash else None),
      req_metadata =
        (if truthy (param_metadata params) then param_metadata params else None)\<rparr>"

definition created ::
    "'n env \<Rightarrow> CreatePaymentPayload \<Rightarrow> PaymentManager
      \<Rightarrow> (thrown + PaymentRequest) \<times> PaymentManager" where
  "created env payload st2 =
     (let st4 = st2\<lparr>console := console st2 @ [ConsoleLog ''Creating payment request...''],
                     requests := requests st2 @ [PostPayment payload]\<rparr>
      in
        (case post env (PostPayment payload) of
           Inl cause \<Rightarrow> (Inl (Rejected cause), st4)
         | Inr response \<Rightarrow>
             (Inr response,
              st4\<lparr>pendingPayments :=
                     AList.update (blockchainIdentifier response) response (pendingPayments st4),
                   emitted := emitted st4 @ [payment_created response],
                   console := console st4 @
                     [ConsoleLog (check_mark @ '' Payment request created:'')]\<rparr>)))"

text \<open>A JavaScript \<^verbatim>\<open>Map\<close> holds each key once.\<close>

definition store_inv :: "PaymentManager \<Rightarrow> bool" where
  "store_inv st = distinct (map fst (pendingPayments st))"

subsection \<open>Example data\<close>

definition ex_config :: MasumiPluginConfig where
  "ex_config = \<lparr>agentIdentifier = Some ''agent_abc123'', network = Preprod\<rparr>"

definition ex_unprovisioned :: MasumiPluginConfig where
  "ex_unprovisioned = \<lparr>agentIdentifier = None, network = Preprod\<rparr>"

definition ex_payment :: "string \<Rightarrow> OnChainState \<Rightarrow> PaymentRequest" where
  "ex_payment k s =
     \<lparr>blockchainIdentifier = k, identifierFromPurchaser = ''buyer1'', onChainState = s,
      payByTime = ''2026-01-01T12:00:00.000Z'', submitResultTime = ''2026-01-02T00:00:00.000Z'',
      requestedAction = ''None'', requestedFunds = [(''1000000'', ''lovelace'')]\<rparr>"

text \<open>
  An environment around a given remote service: a clock that advances by one millisecond
  at each reading, a stand-in for \<^verbatim>\<open>toISOString\<close> that prints the time value in decimal,
  a stand-in for the digest that folds the bytes into 256 bits, numbers printed in decimal,
  and the separator \<^verbatim>\<open>;\<close>.
\<close>

definition ex_digest :: digest where
  "ex_digest s = foldl (\<lambda>h c. (h XOR of_char c) * 1099511628211) 14695981039346656037 s"

definition ex_env :: "(ApiRequest \<Rightarrow> string + PaymentRequest) \<Rightarrow> nat env" where
  "ex_env answer =
     \<lparr>post = answer, dateNow = (\<lambda>n. 1700000000000 + int n),
      toISOString = (\<lambda>t. decimal (nat t)), sha256 = ex_digest,
      formatNumber = decimal, separator = '';''\<rparr>"

text \<open>A remote service that reports every payment in the given state.\<close>

definition ex_remote :: "OnChainState \<Rightarrow> ApiRequest \<Rightarrow> string + PaymentRequest" where
  "ex_remote s r =
     (case r of
        PostPayment pl \<Rightarrow> Inr (ex_payment ''payment_xyz'' s)
      | PostResolveBlockchainIdentifier k n \<Rightarrow> Inr (ex_payment k s)
      | PostSubmitResult k n h \<Rightarrow> Inr (ex_payment k s)
      | PostAuthorizeRefund k n \<Rightarrow> Inr (ex_payment k s))"

text \<open>A remote service that fails on the payment \<^verbatim>\<open>p2\<close> and reports the others as locked.\<close>

definition ex_remote_failing :: "ApiRequest \<Rightarrow> string + PaymentRequest" where
  "ex_remote_failing r =
     (case r of
        PostResolveBlockchainIdentifier k n \<Rightarrow>
          if k = ''p2'' then Inl ''503 Service Unavailable''
          else Inr (ex_payment k (State FundsLocked))
      | _ \<Rightarrow> Inl ''400 Bad Request'')"

text \<open>A manager that tracks four payments; the last one is withdrawn.\<close>

definition ex_tracking :: PaymentManager where
  "ex_tracking =
     (new_PaymentManager ex_config)
       \<lparr>pendingPayments :=
          [(''p1'', ex_payment ''p1'' Null),
           (''p2'', ex_payment ''p2'' Null),
           (''p3'', ex_payment ''p3'' (State ResultSubmitted)),
           (''p4'', ex_payment ''p4'' (State Withdrawn))]\<rparr>"

text \<open>
  A payload and the same payload with the keys inserted in another order, at both levels:
  \<^verbatim>\<open>{task: 'sum', args: {y: 2, x: 3}}\<close> and \<^verbatim>\<open>{args: {x: 3, y: 2}, task: 'sum'}\<close>.
\<close>

definition ex_input :: "nat json" where
  "ex_input =
     JObj [(''task'', JStr ''sum''), (''args'', JObj [(''y'', JNum 2), (''x'', JNum 3)])]"

definition ex_input_reordered :: "nat json" where
  "ex_input_reordered =
     JObj [(''args'', JObj [(''x'', JNum 3), (''y'', JNum 2)]), (''task'', JStr ''sum'')]"


text \<open>Parameters with both deadlines omitted, and with the first one given.\<close>

definition ex_params :: "nat CreatePaymentParams" where
  "ex_params =
     \<lparr>param_identifierFromPurchaser = ''buyer1'', param_inputData = None,
      param_payByTime = None, param_submitResultTime = None, param_metadata = None\<rparr>"

definition ex_params_dated :: "nat CreatePaymentParams" where
  "ex_params_dated =
     \<lparr>param_identifierFromPurchaser = ''buyer1'', param_inputData = None,
      param_payByTime = Some (ValidDate 1700000600000), param_submitResultTime = None,
      param_metadata = None\<rparr>"

definition ex_monitoring :: PaymentManager where
  "ex_monitoring = startStatusMonitoring None (new_PaymentManager ex_config)"

definition ex_tracking_monitored :: PaymentManager where
  "ex_tracking_monitored = startStatusMonitoring (Some 5000) ex_tracking"

section \<open>Properties of the hasher\<close>

lemma length_hex256: "length (hex256 w) = 64"
  by (simp add: hex256_def)

lemma nibble_bound: "unat ((x :: 256 word) AND 15) < 16"
proof -
  have "x AND 15 = take_bit 4 x"
    by (simp add: take_bit_eq_mask mask_eq_exp_minus_1)
  then have "unat (x AND 15) = take_bit 4 (unat x)"
    by (simp add: unsigned_take_bit_eq)
  also have "\<dots> < 2 ^ 4" by (rule take_bit_nat_less_exp)
  finally show ?thesis by simp
qed

lemma hexdigit_lower: "n < 16 \<Longrightarrow> hexdigit n \<in> set ''0123456789abcdef''"
  unfolding hexdigit_def by (rule nth_mem) simp

lemma set_hex256: "set (hex256 w) \<subseteq> set ''0123456789abcdef''"
  unfolding hex256_def using hexdigit_lower [OF nibble_bound] by auto

text \<open>With distinct keys, the sorted list of members does not depend on their order.\<close>

lemma filter_key_distinct:
  "distinct (map fst xs) \<Longrightarrow> k \<in> set xs \<Longrightarrow> filter (\<lambda>x. fst k = fst x) xs = [k]"
proof (induction xs)
  case Nil
  then show ?case by simp
next
  case (Cons x xs)
  show ?case
  proof (cases "k = x")
    case True
    have "\<forall>y \<in> set xs. fst x \<noteq> fst y" using Cons.prems(1) by (auto simp: image_iff)
    then have "filter (\<lambda>y. fst x = fst y) xs = []" by (simp add: filter_empty_conv)
    with True show ?thesis by simp
  next
    case False
    with Cons.prems have "k \<in> set xs" by simp
    moreover have "fst k \<noteq> fst x"
      using Cons.prems(1) \<open>k \<in> set xs\<close> by (auto simp: image_iff)
    ultimately show ?thesis using Cons by simp
  qed
qed

lemma sort_key_permuted:
  assumes "mset xs = mset ys" and "distinct (map fst xs)"
  shows "sort_key fst xs = sort_key fst ys"
proof -
  have dy: "distinct (map fst ys)"
  proof -
    have "mset (map fst xs) = mset (map fst ys)" using assms(1) by simp
    then show ?thesis using assms(2) mset_eq_imp_distinct_iff by blast
  qed
  have sets: "set xs = set ys" using assms(1) by (rule mset_eq_setD)
  show ?thesis
  proof (rule properties_for_sort_key)
    show "mset (sort_key fst ys) = mset xs" using assms(1) by simp
    show "sorted (map fst (sort_key fst ys))" by simp
  next
    fix k assume "k \<in> set (sort_key fst ys)"
    then have ky: "k \<in> set ys" by simp
    then have kx: "k \<in> set xs" using sets by simp
    have "filter (\<lambda>x. fst k = fst x) (sort_key fst ys) =
        sort_key fst (filter (\<lambda>x. fst k = fst x) ys)"
      by (simp add: filter_sort)
    also have "\<dots> = [k]" using filter_key_distinct [OF dy ky] by simp
    also have "\<dots> = filter (\<lambda>x. fst k = fst x) xs"
      using filter_key_distinct [OF assms(2) kx] by simp
    finally show "filter (\<lambda>x. fst k = fst x) (sort_key fst ys) =
        filter (\<lambda>x. fst k = fst x) xs" .
  qed
qed

lemma canonical_reordered:
  "reordered p q \<Longrightarrow> wf_json p \<Longrightarrow> canonical fmt p = canonical fmt q"
proof (induction rule: reordered.induct)
  case (same j)
  show ?case by simp
next
  case (elements xs ys)
  from elements.IH elements.prems have "map (canonical fmt) xs = map (canonical fmt) ys"
  proof (induction xs ys rule: list_all2_induct)
    case Nil
    show ?case by simp
  next
    case (Cons x xs y ys)
    then show ?case by simp
  qed
  then show ?case by simp
next
  case (members kvs kvs' kvs'')
  let ?g = "\<lambda>kv. (fst kv, canonical fmt (snd kv))"
  have d: "distinct (map fst kvs)" and w: "list_all (\<lambda>kv. wf_json (snd kv)) kvs"
    using members.prems by simp_all
  from members.IH w have eq: "map ?g kvs = map ?g kvs'"
  proof (induction kvs kvs' rule: list_all2_induct)
    case Nil
    show ?case by simp
  next
    case (Cons x xs y ys)
    then show ?case by simp
  qed
  have "mset (map ?g kvs') = mset (map ?g kvs'')"
    using members.hyps by simp
  moreover have "distinct (map fst (map ?g kvs'))"
  proof -
    have "map fst (map ?g kvs) = map fst kvs" by (simp add: comp_def)
    with eq d show ?thesis by simp
  qed
  ultimately have "sort_key fst (map ?g kvs') = sort_key fst (map ?g kvs'')"
    by (rule sort_key_permuted)
  with eq show ?case by simp
qed

lemma serialize_reordered:
  "reordered p q \<Longrightarrow> wf_json p \<Longrightarrow> serialize fmt p = serialize fmt q"
proof -
  assume r: "reordered p q" and w: "wf_json p"
  have c: "canonical fmt p = canonical fmt q" using r w by (rule canonical_reordered)
  from r show ?thesis
  proof (cases rule: reordered.cases)
    case same
    then show ?thesis by simp
  next
    case (elements xs ys)
    with c show ?thesis by (simp add: serialize_def)
  next
    case (members kvs kvs' kvs'')
    with c show ?thesis by (simp add: serialize_def)
  qed
qed

text \<open>The serialisation of the example: \<^verbatim>\<open>{"args":{"x":3,"y":2},"task":"sum"}\<close>.\<close>

lemma ex_input_canonical:
  "canonical decimal ex_input =
     [CHR ''{'', CHR 0x22] @ ''args'' @ [CHR 0x22] @ '':{'' @ [CHR 0x22] @ ''x'' @ [CHR 0x22] @ '':3,'' @
     [CHR 0x22] @ ''y'' @ [CHR 0x22] @ '':2},'' @ [CHR 0x22] @ ''task'' @ [CHR 0x22] @ '':'' @
     [CHR 0x22] @ ''sum'' @ [CHR 0x22] @ ''}''"
  by code_simp

lemma ex_input_reordered_canonical:
  "canonical decimal ex_input_reordered = canonical decimal ex_input"
  by code_simp

lemma ex_reordered: "reordered ex_input ex_input_reordered"
proof -
  have inner: "reordered (JObj [(''y'', JNum 2), (''x'', JNum (3::nat))])
                 (JObj [(''x'', JNum 3), (''y'', JNum 2)])"
    by (rule reordered.members [where kvs' = "[(''y'', JNum 2), (''x'', JNum 3)]"])
       (simp_all add: reordered.same)
  show ?thesis
    unfolding ex_input_def ex_input_reordered_def
    by (rule reordered.members
          [where kvs' = "[(''task'', JStr ''sum''),
                          (''args'', JObj [(''x'', JNum 3), (''y'', JNum 2)])]"])
       (simp_all add: reordered.same inner)
qed

section \<open>Properties of the payment manager\<close>

subsection \<open>checkPaymentStatus\<close>

lemmas effect_defs = client_post_def Map_set_def Map_get_def emit_def console_log_def
  console_warn_def console_error_def

lemma cps_fst:
  "fst (checkPaymentStatus env k st) =
     (case post env (resolveRequest st k) of Inl c \<Rightarrow> Inl (Rejected c) | Inr r \<Rightarrow> Inr r)"
  by (simp add: checkPaymentStatus_def resolveRequest_def effect_defs Let_def split: sum.splits)

lemma cps_requests:
  "requests (snd (checkPaymentStatus env k st)) = requests st @ [resolveRequest st k]"
  by (simp add: checkPaymentStatus_def resolveRequest_def effect_defs Let_def split: sum.splits)

lemma cps_config: "config (snd (checkPaymentStatus env k st)) = config st"
  by (simp add: checkPaymentStatus_def effect_defs Let_def split: sum.splits)

lemma cps_timers:
  "timers (snd (checkPaymentStatus env k st)) = timers st"
  "statusMonitorInterval (snd (checkPaymentStatus env k st)) = statusMonitorInterval st"
  "isMonitoring (snd (checkPaymentStatus env k st)) = isMonitoring st"
  by (simp_all add: checkPaymentStatus_def effect_defs Let_def split: sum.splits)

lemma cps_store:
  "pendingPayments (snd (checkPaymentStatus env k st)) =
     (case post env (resolveRequest st k) of
        Inl c \<Rightarrow> pendingPayments st
      | Inr r \<Rightarrow> AList.update k r (pendingPayments st))"
  by (simp add: checkPaymentStatus_def resolveRequest_def effect_defs Let_def split: sum.splits)

lemma cps_emitted:
  "emitted (snd (checkPaymentStatus env k st)) = emitted st @
     (case post env (resolveRequest st k) of
        Inl c \<Rightarrow> []
      | Inr r \<Rightarrow>
          if cachedState st k = onChainState r then []
          else payment_state_changed k (orNull (cachedState st k)) (orNull (onChainState r)) r #
               (if onChainState r = State FundsLocked then [payment_funds_locked r]
                else if onChainState r = State Withdrawn then [payment_completed r]
                else []))"
  by (simp add: checkPaymentStatus_def resolveRequest_def cachedState_def effect_defs Let_def
      split: sum.splits)

lemma Map_get_update:
  "map_of (AList.update k v al) k' = (if k' = k then Some v else map_of al k')"
  by (simp add: update_conv')

lemma keys_update_known:
  "k \<in> fst ` set al \<Longrightarrow> map fst (AList.update k v al) = map fst al"
  by (induction al) auto



text \<open>
  The comparison is the strict inequality of JavaScript. For an identifier without an entry
  the cached value is \<^verbatim>\<open>undefined\<close>; when the service reports the state \<^verbatim>\<open>null\<close>, the two
  differ and the event is emitted, from no state to no state.
\<close>

lemma checkPaymentStatus_first_fetch_null:
  "emitted (snd (checkPaymentStatus (ex_env (ex_remote Null)) ''p1''
     (new_PaymentManager ex_config))) =
     [payment_state_changed ''p1'' None None (ex_payment ''p1'' Null)]"
proof -
  have "post (ex_env (ex_remote Null)) (resolveRequest (new_PaymentManager ex_config) ''p1'') =
      Inr (ex_payment ''p1'' Null)"
    by (simp add: ex_env_def ex_remote_def resolveRequest_def)
  moreover have "cachedState (new_PaymentManager ex_config) ''p1'' = Undefined"
    by (simp add: cachedState_def Map_get_def new_PaymentManager_def)
  moreover have "onChainState (ex_payment ''p1'' Null) = Null"
    by (simp add: ex_payment_def)
  moreover have "emitted (new_PaymentManager ex_config) = []"
    by (simp add: new_PaymentManager_def)
  ultimately show ?thesis by (simp add: cps_emitted orNull_def)
qed

subsection \<open>The polling cycle\<close>

lemma pollEntries_Cons: "pollEntries env (k # ids) st = pollEntries env ids (visit env k st)"
  by (simp add: visit_def split: option.splits sum.splits prod.splits)

lemma visit_unfold:
  "visit env k st =
     (if refreshable st k then
        (case post env (resolveRequest st k) of
           Inr r \<Rightarrow> snd (checkPaymentStatus env k st)
         | Inl c \<Rightarrow> emit (payment_monitor_error k (Rejected c))
                     (console_error ''Payment status check failed:''
                        (snd (checkPaymentStatus env k st))))
      else st)"
proof -
  obtain res st' where c: "checkPaymentStatus env k st = (res, st')"
    by (cases "checkPaymentStatus env k st")
  have "res = (case post env (resolveRequest st k) of Inl c \<Rightarrow> Inl (Rejected c) | Inr r \<Rightarrow> Inr r)"
    using cps_fst [of env k st] c by simp
  then show ?thesis
    using c by (auto simp: visit_def refreshable_def split: option.splits sum.splits)
qed

lemma visit_config: "config (visit env k st) = config st"
  by (simp add: visit_unfold cps_config emit_def console_error_def split: sum.splits)

lemma visit_resolveRequest: "resolveRequest (visit env k st) = resolveRequest st"
  by (simp add: resolveRequest_def visit_config fun_eq_iff)

lemma visit_timers:
  "timers (visit env k st) = timers st"
  "statusMonitorInterval (visit env k st) = statusMonitorInterval st"
  "isMonitoring (visit env k st) = isMonitoring st"
  by (simp_all add: visit_unfold cps_timers emit_def console_error_def split: sum.splits)

lemma visit_requests:
  "requests (visit env k st) =
     requests st @ (if refreshable st k then [resolveRequest st k] else [])"
  by (simp add: visit_unfold cps_requests emit_def console_error_def split: sum.splits)

lemma visit_store:
  "pendingPayments (visit env k st) =
     (if refreshable st k then
        (case post env (resolveRequest st k) of
           Inl c \<Rightarrow> pendingPayments st
         | Inr r \<Rightarrow> AList.update k r (pendingPayments st))
      else pendingPayments st)"
  by (simp add: visit_unfold cps_store emit_def console_error_def split: sum.splits)

lemma visit_get_other: "k' \<noteq> k \<Longrightarrow> Map_get (visit env k st) k' = Map_get st k'"
  by (simp add: Map_get_def visit_store Map_get_update split: sum.splits)

lemma visit_refreshable_other: "k' \<noteq> k \<Longrightarrow> refreshable (visit env k st) k' = refreshable st k'"
  by (simp add: refreshable_def visit_get_other)

lemma visit_get_same:
  "Map_get (visit env k st) k =
     (if refreshable st k then
        (case post env (resolveRequest st k) of Inl c \<Rightarrow> Map_get st k | Inr r \<Rightarrow> Some r)
      else Map_get st k)"
  by (simp add: Map_get_def visit_store Map_get_update split: sum.splits)

lemma visit_monitor_errors:
  "filter is_monitor_error (emitted (visit env k st)) =
     filter is_monitor_error (emitted st) @
       (if refreshable st k then
          (case post env (resolveRequest st k) of
             Inl c \<Rightarrow> [payment_monitor_error k (Rejected c)]
           | Inr r \<Rightarrow> [])
        else [])"
  by (simp add: visit_unfold cps_emitted emit_def console_error_def is_monitor_error_def
      split: sum.splits)

lemma pollEntries_config: "config (pollEntries env ids st) = config st"
proof (induction ids arbitrary: st)
  case Nil
  show ?case by simp
next
  case (Cons k ids)
  show ?case unfolding pollEntries_Cons by (simp add: Cons.IH visit_config)
qed

lemma pollEntries_timers:
  "timers (pollEntries env ids st) = timers st \<and>
   statusMonitorInterval (pollEntries env ids st) = statusMonitorInterval st \<and>
   isMonitoring (pollEntries env ids st) = isMonitoring st"
proof (induction ids arbitrary: st)
  case Nil
  show ?case by simp
next
  case (Cons k ids)
  show ?case unfolding pollEntries_Cons by (simp add: Cons.IH visit_timers)
qed

lemma pollEntries_requests:
  "distinct ids \<Longrightarrow>
   requests (pollEntries env ids st) =
     requests st @ map (resolveRequest st) (filter (refreshable st) ids)"
proof (induction ids arbitrary: st)
  case Nil
  show ?case by simp
next
  case (Cons k ids)
  have same: "filter (refreshable (visit env k st)) ids = filter (refreshable st) ids"
    using Cons.prems by (intro filter_cong refl visit_refreshable_other) auto
  have "requests (pollEntries env ids (visit env k st)) =
      requests (visit env k st) @
        map (resolveRequest (visit env k st)) (filter (refreshable (visit env k st)) ids)"
    using Cons.prems by (intro Cons.IH) simp
  then show ?case
    unfolding pollEntries_Cons by (simp add: same visit_resolveRequest visit_requests)
qed

lemma pollEntries_get_notin:
  "k \<notin> set ids \<Longrightarrow> Map_get (pollEntries env ids st) k = Map_get st k"
proof (induction ids arbitrary: st)
  case Nil
  show ?case by simp
next
  case (Cons a ids)
  then show ?case unfolding pollEntries_Cons by (simp add: visit_get_other)
qed

lemma pollEntries_get_in:
  "distinct ids \<Longrightarrow> k \<in> set ids \<Longrightarrow>
   Map_get (pollEntries env ids st) k =
     (if refreshable st k then
        (case post env (resolveRequest st k) of Inl c \<Rightarrow> Map_get st k | Inr r \<Rightarrow> Some r)
      else Map_get st k)"
proof (induction ids arbitrary: st)
  case Nil
  then show ?case by simp
next
  case (Cons a ids)
  show ?case
  proof (cases "k = a")
    case True
    with Cons.prems have "k \<notin> set ids" by simp
    then show ?thesis
      unfolding pollEntries_Cons True by (simp add: pollEntries_get_notin visit_get_same)
  next
    case False
    with Cons.prems have "k \<in> set ids" "distinct ids" by simp_all
    then show ?thesis
      unfolding pollEntries_Cons using False
      by (simp add: Cons.IH visit_refreshable_other visit_resolveRequest visit_get_other
          split: sum.splits)
  qed
qed

lemma pollEntries_monitor_errors:
  "distinct ids \<Longrightarrow>
   filter is_monitor_error (emitted (pollEntries env ids st)) =
     filter is_monitor_error (emitted st) @
       concat (map (\<lambda>k. case post env (resolveRequest st k) of
                          Inl c \<Rightarrow> [payment_monitor_error k (Rejected c)]
                        | Inr r \<Rightarrow> [])
                 (filter (refreshable st) ids))"
proof (induction ids arbitrary: st)
  case Nil
  show ?case by simp
next
  case (Cons k ids)
  have same: "filter (refreshable (visit env k st)) ids = filter (refreshable st) ids"
    using Cons.prems by (intro filter_cong refl visit_refreshable_other) auto
  have "filter is_monitor_error (emitted (pollEntries env ids (visit env k st))) =
      filter is_monitor_error (emitted (visit env k st)) @
       concat (map (\<lambda>k'. case post env (resolveRequest (visit env k st) k') of
                          Inl c \<Rightarrow> [payment_monitor_error k' (Rejected c)]
                        | Inr r \<Rightarrow> [])
                 (filter (refreshable (visit env k st)) ids))"
    using Cons.prems by (intro Cons.IH) simp
  then show ?case
    unfolding pollEntries_Cons by (simp add: same visit_resolveRequest visit_monitor_errors)
qed

lemma refreshable_entry:
  "distinct (map fst (pendingPayments st)) \<Longrightarrow> kv \<in> set (pendingPayments st) \<Longrightarrow>
   refreshable st (fst kv) = (\<not> isCompleted (snd kv))"
  by (cases kv) (simp add: refreshable_def Map_get_def)

lemma refreshable_keys:
  "distinct (map fst (pendingPayments st)) \<Longrightarrow>
   filter (refreshable st) (map fst (pendingPayments st)) = map fst (nonTerminal st)"
  unfolding nonTerminal_def filter_map comp_def
  by (intro arg_cong [where f = "map fst"] filter_cong refl refreshable_entry)

lemma isCompleted_iff:
  "isCompleted p \<longleftrightarrow>
     onChainState p \<in> {State Withdrawn, State RefundWithdrawn, State DisputedWithdrawn}"
  by (auto simp: isCompleted_def completedStates_def split: OnChainState.splits)

lemma pollCycle_requests:
  assumes "distinct (map fst (pendingPayments st))"
  shows "requests (pollCycle env st) =
           requests st @ map (\<lambda>kv. resolveRequest st (fst kv)) (nonTerminal st)"
  using assms
  by (simp add: pollCycle_def pollEntries_requests refreshable_keys comp_def)

lemma pollCycle_get:
  assumes "distinct (map fst (pendingPayments st))" and "kv \<in> set (pendingPayments st)"
  shows "Map_get (pollCycle env st) (fst kv) =
           (if isCompleted (snd kv) then Some (snd kv)
            else (case post env (resolveRequest st (fst kv)) of
                    Inl c \<Rightarrow> Some (snd kv) | Inr r \<Rightarrow> Some r))"
proof -
  have m: "Map_get st (fst kv) = Some (snd kv)"
    using assms by (cases kv) (simp add: Map_get_def)
  have "fst kv \<in> set (map fst (pendingPayments st))" using assms(2) by simp
  then show ?thesis
    unfolding pollCycle_def
    using pollEntries_get_in [OF assms(1), of "fst kv" env st] assms
    by (simp add: m refreshable_entry split: sum.splits)
qed

lemma pollCycle_monitor_errors:
  assumes "distinct (map fst (pendingPayments st))"
  shows "filter is_monitor_error (emitted (pollCycle env st)) =
     filter is_monitor_error (emitted st) @
       concat (map (\<lambda>kv. case post env (resolveRequest st (fst kv)) of
                          Inl c \<Rightarrow> [payment_monitor_error (fst kv) (Rejected c)]
                        | Inr r \<Rightarrow> [])
                 (nonTerminal st))"
  using assms
  by (simp add: pollCycle_def pollEntries_monitor_errors refreshable_keys comp_def)

subsection \<open>createPaymentRequest\<close>

lemma paymentPayload_times:
  "req_payByTime (paymentPayload env params st a b) = a"
  "req_submitResultTime (paymentPayload env params st a b) = b"
  by (simp_all add: paymentPayload_def)

lemma created_frame:
  "requests (snd (created env payload st2)) = requests st2 @ [PostPayment payload]"
  "timers (snd (created env payload st2)) = timers st2"
  "statusMonitorInterval (snd (created env payload st2)) = statusMonitorInterval st2"
  "isMonitoring (snd (created env payload st2)) = isMonitoring st2"
  by (simp_all add: created_def Let_def split: sum.splits)

lemma createPaymentRequest_unfold:
  assumes "truthy (agentIdentifier (config st))"
      and "orDefaultDate env (param_payByTime params) (12 * 60 * 60 * 1000) st = (payBy, st1)"
      and "orDefaultDate env (param_submitResultTime params) (24 * 60 * 60 * 1000) st1 =
             (submitBy, st2)"
  shows "createPaymentRequest env params st =
     (case date_toISOString env payBy of
        Inl e \<Rightarrow> (Inl e, st2)
      | Inr payByIso \<Rightarrow>
     (case date_toISOString env submitBy of
        Inl e \<Rightarrow> (Inl e, st2)
      | Inr submitByIso \<Rightarrow>
          created env (paymentPayload env params st payByIso submitByIso) st2))"
  unfolding createPaymentRequest_def created_def paymentPayload_def using assms
  by (simp add: effect_defs Let_def split: sum.splits)

lemma orDefaultDate_Some: "orDefaultDate env (Some v) off st = (v, st)"
  by (simp add: orDefaultDate_def)

lemma orDefaultDate_None:
  "orDefaultDate env None off st =
     (newDate (dateNow env (clockReads st) + off), st\<lparr>clockReads := clockReads st + 1\<rparr>)"
  by (simp add: orDefaultDate_def Date_now_def)

lemma orDefaultDate_timers:
  "timers (snd (orDefaultDate env d off st)) = timers st"
  "statusMonitorInterval (snd (orDefaultDate env d off st)) = statusMonitorInterval st"
  "isMonitoring (snd (orDefaultDate env d off st)) = isMonitoring st"
  "requests (snd (orDefaultDate env d off st)) = requests st"
  by (cases d; simp add: orDefaultDate_Some orDefaultDate_None)+

lemma create_frame:
  "timers (snd (createPaymentRequest env params st)) = timers st \<and>
   statusMonitorInterval (snd (createPaymentRequest env params st)) = statusMonitorInterval st \<and>
   isMonitoring (snd (createPaymentRequest env params st)) = isMonitoring st"
proof (cases "truthy (agentIdentifier (config st))")
  case False
  then show ?thesis by (simp add: createPaymentRequest_def)
next
  case True
  obtain payBy st1 where
    1: "orDefaultDate env (param_payByTime params) (12 * 60 * 60 * 1000) st = (payBy, st1)"
    by (cases "orDefaultDate env (param_payByTime params) (12 * 60 * 60 * 1000) st")
  obtain submitBy st2 where
    2: "orDefaultDate env (param_submitResultTime params) (24 * 60 * 60 * 1000) st1 =
          (submitBy, st2)"
    by (cases "orDefaultDate env (param_submitResultTime params) (24 * 60 * 60 * 1000) st1")
  have f1: "timers st1 = timers st" "statusMonitorInterval st1 = statusMonitorInterval st"
    "isMonitoring st1 = isMonitoring st"
    using orDefaultDate_timers [of env "param_payByTime params" "12 * 60 * 60 * 1000" st] 1
    by simp_all
  have f2: "timers st2 = timers st" "statusMonitorInterval st2 = statusMonitorInterval st"
    "isMonitoring st2 = isMonitoring st"
    using orDefaultDate_timers [of env "param_submitResultTime params" "24 * 60 * 60 * 1000" st1]
      2 f1
    by simp_all
  show ?thesis
    unfolding createPaymentRequest_unfold [OF True 1 2]
    by (simp add: f2 created_frame split: sum.splits)
qed


subsection \<open>The timer\<close>

lemma submit_frame:
  "timers (snd (submitResult env k out st)) = timers st \<and>
   statusMonitorInterval (snd (submitResult env k out st)) = statusMonitorInterval st \<and>
   isMonitoring (snd (submitResult env k out st)) = isMonitoring st"
  by (simp add: submitResult_def effect_defs Let_def split: option.splits sum.splits)

lemma refund_frame:
  "timers (snd (authorizeRefund env k st)) = timers st \<and>
   statusMonitorInterval (snd (authorizeRefund env k st)) = statusMonitorInterval st \<and>
   isMonitoring (snd (authorizeRefund env k st)) = isMonitoring st"
  by (simp add: authorizeRefund_def effect_defs Let_def split: sum.splits)

lemma cleanup_frame:
  "timers (snd (cleanupCompletedPayments st)) = timers st \<and>
   statusMonitorInterval (snd (cleanupCompletedPayments st)) = statusMonitorInterval st \<and>
   isMonitoring (snd (cleanupCompletedPayments st)) = isMonitoring st"
  by (simp add: cleanupCompletedPayments_def effect_defs Let_def)

lemma start_timer_inv: "timer_inv st \<Longrightarrow> timer_inv (startStatusMonitoring ms st)"
  by (auto simp: timer_inv_def startStatusMonitoring_def setInterval_def clearInterval_def
      effect_defs Let_def split: option.splits)

lemma stop_timer_inv: "timer_inv st \<Longrightarrow> timer_inv (stopStatusMonitoring st)"
  by (auto simp: timer_inv_def stopStatusMonitoring_def clearInterval_def effect_defs
      filter_empty_conv split: option.splits)

lemma stop_timers: "timer_inv st \<Longrightarrow> timers (stopStatusMonitoring st) = []"
  by (auto simp: timer_inv_def stopStatusMonitoring_def clearInterval_def effect_defs
      filter_empty_conv split: option.splits)

lemma close_timer_inv: "timer_inv st \<Longrightarrow> timer_inv (close st)"
  using stop_timer_inv [of st] by (simp add: close_def timer_inv_def effect_defs)

lemma step_timer_inv: "timer_inv st \<Longrightarrow> timer_inv (step st ea)"
proof (cases "snd ea")
  case (CreatePaymentRequest params)
  assume "timer_inv st"
  then show ?thesis
    using create_frame [of "fst ea" params st]
    by (simp add: step_def CreatePaymentRequest timer_inv_def)
next
  case (CheckPaymentStatus k)
  assume "timer_inv st"
  then show ?thesis
    by (simp add: step_def CheckPaymentStatus timer_inv_def cps_timers)
next
  case (SubmitResult k out)
  assume "timer_inv st"
  then show ?thesis
    using submit_frame [of "fst ea" k out st]
    by (simp add: step_def SubmitResult timer_inv_def)
next
  case (AuthorizeRefund k)
  assume "timer_inv st"
  then show ?thesis
    using refund_frame [of "fst ea" k st]
    by (simp add: step_def AuthorizeRefund timer_inv_def)
next
  case (StartStatusMonitoring ms)
  assume "timer_inv st"
  then show ?thesis
    by (simp add: step_def StartStatusMonitoring start_timer_inv)
next
  case StopStatusMonitoring
  assume "timer_inv st"
  then show ?thesis
    by (simp add: step_def StopStatusMonitoring stop_timer_inv)
next
  case TimerFires
  assume "timer_inv st"
  then show ?thesis
    using pollEntries_timers [of "fst ea" "map fst (pendingPayments st)" st]
    by (auto simp: step_def TimerFires timer_inv_def pollCycle_def split: option.splits)
next
  case CleanupCompletedPayments
  assume "timer_inv st"
  then show ?thesis
    using cleanup_frame [of st]
    by (simp add: step_def CleanupCompletedPayments timer_inv_def)
next
  case Close
  assume "timer_inv st"
  then show ?thesis
    by (simp add: step_def Close close_timer_inv)
qed

lemma foldl_step_timer_inv: "timer_inv st \<Longrightarrow> timer_inv (foldl step st acts)"
  by (induction acts arbitrary: st) (simp_all add: step_timer_inv)

lemma run_timer_inv: "timer_inv (run cfg acts)"
  unfolding run_def
  by (rule foldl_step_timer_inv) (simp add: timer_inv_def new_PaymentManager_def)

lemma timer_inv_at_most_one: "timer_inv st \<Longrightarrow> length (timers st) \<le> 1"
proof -
  assume "timer_inv st"
  then have "length (map fst (timers st)) \<le> 1"
    by (simp add: timer_inv_def split: option.splits)
  then show ?thesis by simp
qed

lemma cleared_timer: "t \<notin> fst ` {x \<in> set xs. fst x \<noteq> t}"
  by auto

subsection \<open>The store\<close>

text \<open>Every operation keeps the keys of the store distinct.\<close>

lemma orDefaultDate_store:
  "pendingPayments (snd (orDefaultDate env d off st)) = pendingPayments st"
  by (cases d; simp add: orDefaultDate_Some orDefaultDate_None)

lemma created_store_inv: "store_inv st2 \<Longrightarrow> store_inv (snd (created env payload st2))"
  by (simp add: store_inv_def created_def Let_def distinct_update split: sum.splits)

lemma create_store_inv: "store_inv st \<Longrightarrow> store_inv (snd (createPaymentRequest env params st))"
proof (cases "truthy (agentIdentifier (config st))")
  case False
  assume "store_inv st"
  with False show ?thesis by (simp add: createPaymentRequest_def)
next
  case True
  assume inv: "store_inv st"
  obtain payBy st1 where
    1: "orDefaultDate env (param_payByTime params) (12 * 60 * 60 * 1000) st = (payBy, st1)"
    by (cases "orDefaultDate env (param_payByTime params) (12 * 60 * 60 * 1000) st")
  obtain submitBy st2 where
    2: "orDefaultDate env (param_submitResultTime params) (24 * 60 * 60 * 1000) st1 =
          (submitBy, st2)"
    by (cases "orDefaultDate env (param_submitResultTime params) (24 * 60 * 60 * 1000) st1")
  have "pendingPayments st1 = pendingPayments st"
    using orDefaultDate_store [of env "param_payByTime params" "12 * 60 * 60 * 1000" st] 1
    by simp
  moreover have "pendingPayments st2 = pendingPayments st1"
    using orDefaultDate_store [of env "param_submitResultTime params" "24 * 60 * 60 * 1000" st1] 2
    by simp
  ultimately have "store_inv st2" using inv by (simp add: store_inv_def)
  then show ?thesis
    unfolding createPaymentRequest_unfold [OF True 1 2]
    by (simp add: created_store_inv split: sum.splits)
qed

lemma cps_store_inv: "store_inv st \<Longrightarrow> store_inv (snd (checkPaymentStatus env k st))"
  by (simp add: store_inv_def cps_store distinct_update split: sum.splits)

lemma submit_store_inv: "store_inv st \<Longrightarrow> store_inv (snd (submitResult env k out st))"
  by (simp add: store_inv_def submitResult_def effect_defs Let_def distinct_update
      split: option.splits sum.splits)

lemma refund_store_inv: "store_inv st \<Longrightarrow> store_inv (snd (authorizeRefund env k st))"
  by (simp add: store_inv_def authorizeRefund_def effect_defs Let_def distinct_update
      split: sum.splits)

lemma visit_store_inv: "store_inv st \<Longrightarrow> store_inv (visit env k st)"
  by (simp add: store_inv_def visit_store distinct_update split: sum.splits)

lemma pollEntries_store_inv: "store_inv st \<Longrightarrow> store_inv (pollEntries env ids st)"
proof (induction ids arbitrary: st)
  case Nil
  then show ?case by simp
next
  case (Cons k ids)
  then show ?case unfolding pollEntries_Cons by (simp add: visit_store_inv)
qed

lemma start_store: "pendingPayments (startStatusMonitoring ms st) = pendingPayments st"
  by (simp add: startStatusMonitoring_def setInterval_def clearInterval_def effect_defs Let_def
      split: option.splits)

lemma stop_store: "pendingPayments (stopStatusMonitoring st) = pendingPayments st"
  by (simp add: stopStatusMonitoring_def clearInterval_def console_log_def split: option.splits)

lemma cleanup_store_inv: "store_inv st \<Longrightarrow> store_inv (snd (cleanupCompletedPayments st))"
  by (simp add: store_inv_def cleanupCompletedPayments_def console_log_def Let_def
      distinct_map_filter)

lemma step_store_inv: "store_inv st \<Longrightarrow> store_inv (step st ea)"
  by (cases "snd ea")
     (simp_all add: step_def create_store_inv cps_store_inv submit_store_inv refund_store_inv
        pollCycle_def pollEntries_store_inv cleanup_store_inv,
      simp_all add: store_inv_def start_store stop_store close_def console_log_def)

lemma foldl_step_store_inv: "store_inv st \<Longrightarrow> store_inv (foldl step st acts)"
  by (induction acts arbitrary: st) (simp_all add: step_store_inv)

lemma run_store_distinct: "distinct (map fst (pendingPayments (run cfg acts)))"
proof -
  have "store_inv (new_PaymentManager cfg)"
    by (simp add: store_inv_def new_PaymentManager_def)
  then have "store_inv (run cfg acts)"
    unfolding run_def by (rule foldl_step_store_inv)
  then show ?thesis by (simp add: store_inv_def)
qed

lemma terminal_not_requested:
  assumes "distinct (map fst (pendingPayments st))"
      and "kv \<in> set (pendingPayments st)" and "isCompleted (snd kv)"
  shows "resolveRequest st (fst kv) \<notin> set (map (\<lambda>kv. resolveRequest st (fst kv)) (nonTerminal st))"
proof
  assume "resolveRequest st (fst kv) \<in> set (map (\<lambda>kv. resolveRequest st (fst kv)) (nonTerminal st))"
  then obtain kv' where m: "kv' \<in> set (nonTerminal st)" and e: "fst kv' = fst kv"
    by (auto simp: resolveRequest_def)
  from m have "kv' \<in> set (pendingPayments st)" and n: "\<not> isCompleted (snd kv')"
    by (simp_all add: nonTerminal_def)
  with assms(1,2) e have "kv' = kv"
    by (metis eq_key_imp_eq_value prod.collapse)
  with n assms(3) show False by simp
qed

section \<open>The claims\<close>

text \<open>
  C1. The hash is a function of the payload and the salt alone (given the digest, the
  number format and the separator), so every invocation returns the same digest. The
  digest is 64 characters long, each a lowercase hexadecimal digit. For a payload in which
  no object repeats a key, inserting the keys of its mappings in another order, at any
  nesting level, does not change the digest. \<^verbatim>\<open>createMasumiInputHash\<close> (the
  \<^verbatim>\<open>inputHash\<close> of \<^verbatim>\<open>createPaymentRequest\<close>) and \<^verbatim>\<open>createMasumiOutputHash\<close> (the
  \<^verbatim>\<open>resultHash\<close> of \<^verbatim>\<open>submitResult\<close>) are this hash.
\<close>

theorem hash_deterministic_canonical:
  "length (hash dg fmt sep p s) = 64
   \<and> set (hash dg fmt sep p s) \<subseteq> set ''0123456789abcdef''
   \<and> (wf_json p \<and> reordered p q \<longrightarrow> hash dg fmt sep p s = hash dg fmt sep q s)
   \<and> createMasumiInputHash dg fmt sep p s = hash dg fmt sep p s
   \<and> createMasumiOutputHash dg fmt sep outputData s = hash dg fmt sep (JStr outputData) s"
proof (intro conjI impI)
  show "length (hash dg fmt sep p s) = 64"
    by (simp add: hash_def length_hex256)
  show "set (hash dg fmt sep p s) \<subseteq> set ''0123456789abcdef''"
    unfolding hash_def by (rule set_hex256)
  show "hash dg fmt sep p s = hash dg fmt sep q s" if "wf_json p \<and> reordered p q"
    using that serialize_reordered [of p q fmt] by (simp add: hash_def)
  show "createMasumiInputHash dg fmt sep p s = hash dg fmt sep p s"
    by (simp add: createMasumiInputHash_def)
  show "createMasumiOutputHash dg fmt sep outputData s = hash dg fmt sep (JStr outputData) s"
    by (simp add: createMasumiOutputHash_def)
qed

theorem hash_deterministic_canonical_witness:
  "wf_json ex_input \<and> reordered ex_input ex_input_reordered
   \<and> ex_input \<noteq> ex_input_reordered
   \<and> hash ex_digest decimal '';'' ex_input ''buyer1'' =
       hash ex_digest decimal '';'' ex_input_reordered ''buyer1''
   \<and> length (hash ex_digest decimal '';'' ex_input ''buyer1'') = 64"
proof -
  have w: "wf_json ex_input" by (simp add: ex_input_def)
  have d: "ex_input \<noteq> ex_input_reordered"
    by (simp add: ex_input_def ex_input_reordered_def)
  show ?thesis
    using w d ex_reordered
      hash_deterministic_canonical [of ex_digest decimal "'';''" ex_input "''buyer1''"
        ex_input_reordered]
    by blast
qed




text \<open>
  C3. For an identifier that is absent from the Payment Store, \<^verbatim>\<open>submitResult\<close> throws
  the error "Payment not found: ..." (the \<^verbatim>\<open>UnknownPayment\<close> failure of the
  specification) and returns the manager as it was: no request has been sent to the remote
  service, the store is unchanged, nothing is emitted or logged.
\<close>

theorem submitResult_unknown_payment:
  "Map_get st k = None \<Longrightarrow>
   submitResult env k outputData st =
     (Inl (Error (''Payment not found: '' @ k @ ''. '' @
        ''Call checkPaymentStatus() first or ensure payment was created via this manager.'')),
      st)"
  by (simp add: submitResult_def)

theorem submitResult_unknown_payment_witness:
  "Map_get (new_PaymentManager ex_config) ''payment_xyz'' = None \<and>
   submitResult (ex_env (ex_remote Null)) ''payment_xyz'' ''{}'' (new_PaymentManager ex_config) =
     (Inl (Error (''Payment not found: payment_xyz. '' @
        ''Call checkPaymentStatus() first or ensure payment was created via this manager.'')),
      new_PaymentManager ex_config)"
proof -
  have h: "Map_get (new_PaymentManager ex_config) ''payment_xyz'' = None"
    by (simp add: Map_get_def new_PaymentManager_def)
  show ?thesis
    using h submitResult_unknown_payment [OF h, of "ex_env (ex_remote Null)" "''{}''"] by simp
qed

text \<open>
  C4. In a polling cycle over a store with one entry per key (as every store of a manager
  is, \<open>run_store_distinct\<close>), the refresh requests that are sent are exactly those of the entries whose cached \<^verbatim>\<open>onChainState\<close> is not
  \<^verbatim>\<open>Withdrawn\<close>, \<^verbatim>\<open>RefundWithdrawn\<close> or \<^verbatim>\<open>DisputedWithdrawn\<close>, one for each, in the order
  of the store: \<^verbatim>\<open>checkPaymentStatus\<close> is not called on an entry in one of these states,
  and it is called on every other entry. An entry in one of these states is still in the
  store after the cycle, unchanged, and \<^verbatim>\<open>getPayment\<close> returns it.
\<close>

theorem pollCycle_skips_terminal:
  assumes "distinct (map fst (pendingPayments st))"
  shows "requests (pollCycle env st) =
           requests st @
             map (\<lambda>kv. PostResolveBlockchainIdentifier (fst kv) (network (config st)))
               (filter (\<lambda>kv. onChainState (snd kv) \<notin>
                   {State Withdrawn, State RefundWithdrawn, State DisputedWithdrawn})
                 (pendingPayments st))
         \<and> (\<forall>kv \<in> set (pendingPayments st).
               onChainState (snd kv) \<in> {State Withdrawn, State RefundWithdrawn, State DisputedWithdrawn}
               \<longrightarrow> PostResolveBlockchainIdentifier (fst kv) (network (config st))
                     \<notin> set (drop (length (requests st)) (requests (pollCycle env st)))
                 \<and> getPayment (pollCycle env st) (fst kv) = Some (snd kv))"
proof -
  have "nonTerminal st =
      filter (\<lambda>kv. onChainState (snd kv) \<notin>
          {State Withdrawn, State RefundWithdrawn, State DisputedWithdrawn}) (pendingPayments st)"
    by (simp add: nonTerminal_def isCompleted_iff)
  then have "requests (pollCycle env st) =
           requests st @
             map (\<lambda>kv. PostResolveBlockchainIdentifier (fst kv) (network (config st)))
               (filter (\<lambda>kv. onChainState (snd kv) \<notin>
                   {State Withdrawn, State RefundWithdrawn, State DisputedWithdrawn})
                 (pendingPayments st))"
    using pollCycle_requests [OF assms, of env] by (simp add: resolveRequest_def)
  moreover have "PostResolveBlockchainIdentifier (fst kv) (network (config st))
                     \<notin> set (drop (length (requests st)) (requests (pollCycle env st)))
                 \<and> getPayment (pollCycle env st) (fst kv) = Some (snd kv)"
    if "kv \<in> set (pendingPayments st)"
      and "onChainState (snd kv) \<in> {State Withdrawn, State RefundWithdrawn, State DisputedWithdrawn}"
    for kv
  proof -
    have c: "isCompleted (snd kv)" using that(2) by (simp add: isCompleted_iff)
    have "resolveRequest st (fst kv)
            \<notin> set (drop (length (requests st)) (requests (pollCycle env st)))"
      using terminal_not_requested [OF assms that(1) c]
      by (simp add: pollCycle_requests [OF assms])
    then show ?thesis
      using c pollCycle_get [OF assms that(1), of env]
      by (simp add: getPayment_def resolveRequest_def)
  qed
  ultimately show ?thesis by blast
qed

theorem pollCycle_skips_terminal_witness:
  "distinct (map fst (pendingPayments ex_tracking))
   \<and> (''p4'', ex_payment ''p4'' (State Withdrawn)) \<in> set (pendingPayments ex_tracking)
   \<and> requests (pollCycle (ex_env ex_remote_failing) ex_tracking) =
       [PostResolveBlockchainIdentifier ''p1'' Preprod,
        PostResolveBlockchainIdentifier ''p2'' Preprod,
        PostResolveBlockchainIdentifier ''p3'' Preprod]
   \<and> PostResolveBlockchainIdentifier ''p4'' Preprod
       \<notin> set (requests (pollCycle (ex_env ex_remote_failing) ex_tracking))
   \<and> getPayment (pollCycle (ex_env ex_remote_failing) ex_tracking) ''p4'' =
       Some (ex_payment ''p4'' (State Withdrawn))"
proof -
  have d: "distinct (map fst (pendingPayments ex_tracking))"
    by (simp add: ex_tracking_def new_PaymentManager_def)
  have m: "(''p4'', ex_payment ''p4'' (State Withdrawn)) \<in> set (pendingPayments ex_tracking)"
    by (simp add: ex_tracking_def new_PaymentManager_def)
  have r: "requests ex_tracking = []" "network (config ex_tracking) = Preprod"
    by (simp_all add: ex_tracking_def new_PaymentManager_def ex_config_def)
  have p: "pendingPayments ex_tracking =
          [(''p1'', ex_payment ''p1'' Null),
           (''p2'', ex_payment ''p2'' Null),
           (''p3'', ex_payment ''p3'' (State ResultSubmitted)),
           (''p4'', ex_payment ''p4'' (State Withdrawn))]"
    by (simp add: ex_tracking_def new_PaymentManager_def)
  have s: "onChainState (ex_payment k x) = x" for k x
    by (simp add: ex_payment_def)
  show ?thesis
    using d m pollCycle_skips_terminal [OF d, of "ex_env ex_remote_failing"]
    by (simp add: r p s)
qed

text \<open>
  C5. In a polling cycle over a store with one entry per key (as every store of a manager
  is, \<open>run_store_distinct\<close>), the \<^verbatim>\<open>payment:monitor_error\<close> events emitted are exactly one for each non-completed entry whose remote call is
  rejected, carrying the identifier of the entry and what was thrown, in the order of the
  store. Whatever happens to the others, the request of every non-completed entry is sent,
  and the entry is replaced by the answer when there is one (it stays as it was when the
  call is rejected).
\<close>

theorem pollCycle_isolates_failures:
  assumes "distinct (map fst (pendingPayments st))"
  shows "filter is_monitor_error (emitted (pollCycle env st)) =
           filter is_monitor_error (emitted st) @
             concat (map (\<lambda>kv. case post env (PostResolveBlockchainIdentifier (fst kv)
                                                (network (config st))) of
                                  Inl c \<Rightarrow> [payment_monitor_error (fst kv) (Rejected c)]
                                | Inr r \<Rightarrow> [])
                       (filter (\<lambda>kv. \<not> isCompleted (snd kv)) (pendingPayments st)))
         \<and> (\<forall>kv \<in> set (pendingPayments st). \<not> isCompleted (snd kv) \<longrightarrow>
               PostResolveBlockchainIdentifier (fst kv) (network (config st))
                 \<in> set (drop (length (requests st)) (requests (pollCycle env st)))
               \<and> getPayment (pollCycle env st) (fst kv) =
                   (case post env (PostResolveBlockchainIdentifier (fst kv)
                                     (network (config st))) of
                      Inl c \<Rightarrow> Some (snd kv)
                    | Inr r \<Rightarrow> Some r))"
proof -
  have e: "filter is_monitor_error (emitted (pollCycle env st)) =
           filter is_monitor_error (emitted st) @
             concat (map (\<lambda>kv. case post env (PostResolveBlockchainIdentifier (fst kv)
                                                (network (config st))) of
                                  Inl c \<Rightarrow> [payment_monitor_error (fst kv) (Rejected c)]
                                | Inr r \<Rightarrow> [])
                       (filter (\<lambda>kv. \<not> isCompleted (snd kv)) (pendingPayments st)))"
    using pollCycle_monitor_errors [OF assms, of env]
    by (simp add: resolveRequest_def nonTerminal_def)
  have "PostResolveBlockchainIdentifier (fst kv) (network (config st))
          \<in> set (drop (length (requests st)) (requests (pollCycle env st)))
        \<and> getPayment (pollCycle env st) (fst kv) =
            (case post env (PostResolveBlockchainIdentifier (fst kv) (network (config st))) of
               Inl c \<Rightarrow> Some (snd kv)
             | Inr r \<Rightarrow> Some r)"
    if "kv \<in> set (pendingPayments st)" and "\<not> isCompleted (snd kv)" for kv
  proof -
    have "kv \<in> set (nonTerminal st)" using that by (simp add: nonTerminal_def)
    then have "resolveRequest st (fst kv) \<in>
        set (map (\<lambda>kv. resolveRequest st (fst kv)) (nonTerminal st))"
      by auto
    then have "resolveRequest st (fst kv)
          \<in> set (drop (length (requests st)) (requests (pollCycle env st)))"
      by (simp add: pollCycle_requests [OF assms])
    then show ?thesis
      using pollCycle_get [OF assms that(1), of env] that(2)
      by (simp add: getPayment_def resolveRequest_def)
  qed
  with e show ?thesis by blast
qed

theorem pollCycle_isolates_failures_witness:
  "distinct (map fst (pendingPayments ex_tracking))
   \<and> filter is_monitor_error (emitted (pollCycle (ex_env ex_remote_failing) ex_tracking)) =
       [payment_monitor_error ''p2'' (Rejected ''503 Service Unavailable'')]
   \<and> getPayment (pollCycle (ex_env ex_remote_failing) ex_tracking) ''p1'' =
       Some (ex_payment ''p1'' (State FundsLocked))
   \<and> getPayment (pollCycle (ex_env ex_remote_failing) ex_tracking) ''p3'' =
       Some (ex_payment ''p3'' (State FundsLocked))"
proof -
  have d: "distinct (map fst (pendingPayments ex_tracking))"
    by (simp add: ex_tracking_def new_PaymentManager_def)
  have r: "emitted ex_tracking = []" "network (config ex_tracking) = Preprod"
    by (simp_all add: ex_tracking_def new_PaymentManager_def ex_config_def)
  have p: "pendingPayments ex_tracking =
          [(''p1'', ex_payment ''p1'' Null),
           (''p2'', ex_payment ''p2'' Null),
           (''p3'', ex_payment ''p3'' (State ResultSubmitted)),
           (''p4'', ex_payment ''p4'' (State Withdrawn))]"
    by (simp add: ex_tracking_def new_PaymentManager_def)
  have s: "onChainState (ex_payment k x) = x" for k x
    by (simp add: ex_payment_def)
  have a: "post (ex_env ex_remote_failing) = ex_remote_failing"
    by (simp add: ex_env_def)
  show ?thesis
    using d pollCycle_isolates_failures [OF d, of "ex_env ex_remote_failing"]
    by (simp add: r p s a isCompleted_iff ex_remote_failing_def)
qed

text \<open>
  C6. When no agent identity is configured (\<^verbatim>\<open>agentIdentifier\<close> is undefined or the empty
  string), \<^verbatim>\<open>createPaymentRequest\<close> throws the error "agentIdentifier not configured. ..."
  (the \<^verbatim>\<open>NotProvisioned\<close> failure of the specification) and returns the manager as it
  was: no request has been sent, not even once, and the store is unchanged.
\<close>

theorem createPaymentRequest_not_provisioned:
  "\<not> truthy (agentIdentifier (config st)) \<Longrightarrow>
   createPaymentRequest env params st =
     (Inl (Error (''agentIdentifier not configured. '' @
        ''Please provision agent first or set agentIdentifier in config.'')), st)"
  by (simp add: createPaymentRequest_def)

theorem createPaymentRequest_not_provisioned_witness:
  "\<not> truthy (agentIdentifier (config (new_PaymentManager ex_unprovisioned))) \<and>
   createPaymentRequest (ex_env (ex_remote Null))
     \<lparr>param_identifierFromPurchaser = ''buyer1'', param_inputData = None,
      param_payByTime = None, param_submitResultTime = None, param_metadata = None\<rparr>
     (new_PaymentManager ex_unprovisioned) =
     (Inl (Error (''agentIdentifier not configured. '' @
        ''Please provision agent first or set agentIdentifier in config.'')),
      new_PaymentManager ex_unprovisioned)"
proof -
  have h: "\<not> truthy (agentIdentifier (config (new_PaymentManager ex_unprovisioned)))"
    by (simp add: truthy_def new_PaymentManager_def ex_unprovisioned_def)
  show ?thesis
    using h createPaymentRequest_not_provisioned [OF h] by simp
qed

text \<open>
  C10. \<^verbatim>\<open>authorizeRefund\<close> does not look the identifier up in the store. For every
  identifier and every manager it sends the authorize-refund request; it never throws an
  error of the manager (such as the "Payment not found" of \<^verbatim>\<open>submitResult\<close>); and when
  the remote service answers with an entity, it returns that entity, stores it under the
  identifier and emits \<^verbatim>\<open>payment:refund_authorized\<close>.
\<close>

theorem authorizeRefund_no_membership_check:
  "requests (snd (authorizeRefund env k st)) =
     requests st @ [PostAuthorizeRefund k (network (config st))]
   \<and> (\<forall>msg. fst (authorizeRefund env k st) \<noteq> Inl (Error msg))
   \<and> (\<forall>r. post env (PostAuthorizeRefund k (network (config st))) = Inr r \<longrightarrow>
          fst (authorizeRefund env k st) = Inr r
        \<and> getPayment (snd (authorizeRefund env k st)) k = Some r
        \<and> emitted (snd (authorizeRefund env k st)) = emitted st @ [payment_refund_authorized k])"
  by (simp add: authorizeRefund_def getPayment_def effect_defs Let_def Map_get_update
      split: sum.splits)

theorem authorizeRefund_no_membership_check_witness:
  "Map_get (new_PaymentManager ex_config) ''payment_xyz'' = None
   \<and> post (ex_env (ex_remote Null))
       (PostAuthorizeRefund ''payment_xyz'' (network (config (new_PaymentManager ex_config)))) =
       Inr (ex_payment ''payment_xyz'' Null)
   \<and> fst (authorizeRefund (ex_env (ex_remote Null)) ''payment_xyz'' (new_PaymentManager ex_config)) =
       Inr (ex_payment ''payment_xyz'' Null)
   \<and> getPayment (snd (authorizeRefund (ex_env (ex_remote Null)) ''payment_xyz''
        (new_PaymentManager ex_config))) ''payment_xyz'' = Some (ex_payment ''payment_xyz'' Null)
   \<and> emitted (snd (authorizeRefund (ex_env (ex_remote Null)) ''payment_xyz''
        (new_PaymentManager ex_config))) = [payment_refund_authorized ''payment_xyz'']"
proof -
  have h: "post (ex_env (ex_remote Null))
       (PostAuthorizeRefund ''payment_xyz'' (network (config (new_PaymentManager ex_config)))) =
       Inr (ex_payment ''payment_xyz'' Null)"
    by (simp add: ex_env_def ex_remote_def)
  have e: "emitted (new_PaymentManager ex_config) = []"
    by (simp add: new_PaymentManager_def)
  have m: "Map_get (new_PaymentManager ex_config) ''payment_xyz'' = None"
    by (simp add: Map_get_def new_PaymentManager_def)
  show ?thesis
    using h e m
      authorizeRefund_no_membership_check [of "ex_env (ex_remote Null)" "''payment_xyz''"
        "new_PaymentManager ex_config"]
    by simp
qed

text \<open>
  C7. When the manager is monitoring, \<^verbatim>\<open>startStatusMonitoring\<close> logs the warning "Payment
  monitoring already running" and changes nothing else: it does not throw, and the timer,
  the handle and the monitoring flag stay as they are. After any call of
  \<^verbatim>\<open>startStatusMonitoring\<close> the manager is monitoring, so a second start is this no-op.
  Whatever is done with a manager from its construction on, at most one interval timer of
  the manager is set at any time.
\<close>

theorem startStatusMonitoring_idempotent:
  "(isMonitoring st \<longrightarrow>
      startStatusMonitoring ms st =
        st\<lparr>console := console st @ [ConsoleWarn ''Payment monitoring already running'']\<rparr>)
   \<and> isMonitoring (startStatusMonitoring ms st)
   \<and> length (timers (run cfg acts)) \<le> 1"
proof (intro conjI impI)
  show "startStatusMonitoring ms st =
        st\<lparr>console := console st @ [ConsoleWarn ''Payment monitoring already running'']\<rparr>"
    if "isMonitoring st"
    using that by (simp add: startStatusMonitoring_def console_warn_def)
  show "isMonitoring (startStatusMonitoring ms st)"
    by (simp add: startStatusMonitoring_def setInterval_def clearInterval_def effect_defs
        Let_def split: option.splits)
  show "length (timers (run cfg acts)) \<le> 1"
    using run_timer_inv by (rule timer_inv_at_most_one)
qed

theorem startStatusMonitoring_idempotent_witness:
  "isMonitoring ex_monitoring
   \<and> timers ex_monitoring = [(0, 30000)]
   \<and> startStatusMonitoring (Some 5000) ex_monitoring =
       ex_monitoring\<lparr>console := console ex_monitoring @
         [ConsoleWarn ''Payment monitoring already running'']\<rparr>
   \<and> timers (startStatusMonitoring (Some 5000) ex_monitoring) = [(0, 30000)]"
proof -
  have m: "isMonitoring ex_monitoring"
    by (simp add: ex_monitoring_def startStatusMonitoring_def new_PaymentManager_def
        setInterval_def console_log_def Let_def)
  have t: "timers ex_monitoring = [(0, 30000)]"
    by (simp add: ex_monitoring_def startStatusMonitoring_def new_PaymentManager_def
        setInterval_def console_log_def Let_def)
  show ?thesis
    using m t
      startStatusMonitoring_idempotent [of ex_monitoring "Some 5000" ex_config
        "[] :: (nat env \<times> nat action) list"]
    by simp
qed

text \<open>
  C8. With an agent identity configured, \<^verbatim>\<open>createPaymentRequest\<close> sends one request
  \<^verbatim>\<open>POST /payment\<close>. Its \<^verbatim>\<open>payByTime\<close> is the ISO string of the given date, or, when the
  date is omitted, of the clock reading plus 12 hours; its \<^verbatim>\<open>submitResultTime\<close> is the ISO
  string of the given date, or, when omitted, of the clock reading plus 24 hours. (The
  clock is read once for each omitted date; a given date must be a valid \<^verbatim>\<open>Date\<close>, and
  the defaults must lie in the range of \<^verbatim>\<open>Date\<close>, or \<^verbatim>\<open>toISOString\<close> throws and nothing
  is sent.)
\<close>

theorem createPaymentRequest_default_times:
  assumes "truthy (agentIdentifier (config st))"
      and "param_payByTime params \<noteq> Some InvalidDate"
      and "param_submitResultTime params \<noteq> Some InvalidDate"
      and "param_payByTime params = None \<longrightarrow>
             \<bar>dateNow env (clockReads st) + 12 * 60 * 60 * 1000\<bar> \<le> 8640000000000000"
      and "param_submitResultTime params = None \<longrightarrow>
             \<bar>dateNow env (clockReads st + (if param_payByTime params = None then 1 else 0))
                + 24 * 60 * 60 * 1000\<bar> \<le> 8640000000000000"
  shows "\<exists>pl. requests (snd (createPaymentRequest env params st)) = requests st @ [PostPayment pl]
          \<and> req_payByTime pl =
              toISOString env
                (case param_payByTime params of
                   Some (ValidDate t) \<Rightarrow> t
                 | _ \<Rightarrow> dateNow env (clockReads st) + 12 * 60 * 60 * 1000)
          \<and> req_submitResultTime pl =
              toISOString env
                (case param_submitResultTime params of
                   Some (ValidDate t) \<Rightarrow> t
                 | _ \<Rightarrow> dateNow env (clockReads st +
                                       (if param_payByTime params = None then 1 else 0))
                         + 24 * 60 * 60 * 1000)"
proof -
  let ?t1 = "case param_payByTime params of
               Some (ValidDate t) \<Rightarrow> t
             | _ \<Rightarrow> dateNow env (clockReads st) + 12 * 60 * 60 * 1000"
  let ?st1 = "case param_payByTime params of
                Some v \<Rightarrow> st
              | None \<Rightarrow> st\<lparr>clockReads := clockReads st + 1\<rparr>"
  let ?t2 = "case param_submitResultTime params of
               Some (ValidDate t) \<Rightarrow> t
             | _ \<Rightarrow> dateNow env (clockReads st +
                                   (if param_payByTime params = None then 1 else 0))
                     + 24 * 60 * 60 * 1000"
  let ?st2 = "case param_submitResultTime params of
                Some v \<Rightarrow> ?st1
              | None \<Rightarrow> ?st1\<lparr>clockReads := clockReads ?st1 + 1\<rparr>"
  have 1: "orDefaultDate env (param_payByTime params) (12 * 60 * 60 * 1000) st =
             (ValidDate ?t1, ?st1)"
    using assms(2,4)
    by (auto simp: orDefaultDate_Some orDefaultDate_None newDate_def
        split: option.splits JsDate.splits)
  have c1: "clockReads ?st1 = clockReads st + (if param_payByTime params = None then 1 else 0)"
    by (simp split: option.splits)
  have 2: "orDefaultDate env (param_submitResultTime params) (24 * 60 * 60 * 1000) ?st1 =
             (ValidDate ?t2, ?st2)"
    using assms(3,5) unfolding c1 [symmetric]
    by (auto simp: orDefaultDate_Some orDefaultDate_None newDate_def
        split: option.splits JsDate.splits)
  have r: "requests ?st2 = requests st"
    by (simp split: option.splits)
  show ?thesis
    unfolding createPaymentRequest_unfold [OF assms(1) 1 2]
    by (simp add: date_toISOString_def r created_frame paymentPayload_times)
qed


theorem createPaymentRequest_default_times_witness:
  "truthy (agentIdentifier (config (new_PaymentManager ex_config)))
   \<and> (\<exists>pl. requests (snd (createPaymentRequest (ex_env (ex_remote Null)) ex_params
                 (new_PaymentManager ex_config))) = [PostPayment pl]
          \<and> req_payByTime pl = toISOString (ex_env (ex_remote Null)) (1700000000000 + 43200000)
          \<and> req_submitResultTime pl =
              toISOString (ex_env (ex_remote Null)) (1700000000001 + 86400000))
   \<and> (\<exists>pl. requests (snd (createPaymentRequest (ex_env (ex_remote Null)) ex_params_dated
                 (new_PaymentManager ex_config))) = [PostPayment pl]
          \<and> req_payByTime pl = toISOString (ex_env (ex_remote Null)) 1700000600000
          \<and> req_submitResultTime pl =
              toISOString (ex_env (ex_remote Null)) (1700000000000 + 86400000))"
proof -
  have a: "truthy (agentIdentifier (config (new_PaymentManager ex_config)))"
    by (simp add: truthy_def new_PaymentManager_def ex_config_def)
  have c: "clockReads (new_PaymentManager ex_config) = 0"
    "requests (new_PaymentManager ex_config) = []"
    by (simp_all add: new_PaymentManager_def)
  have d: "dateNow (ex_env (ex_remote Null)) n = 1700000000000 + int n" for n
    by (simp add: ex_env_def)
  have p: "param_payByTime ex_params = None" "param_submitResultTime ex_params = None"
    "param_payByTime ex_params_dated = Some (ValidDate 1700000600000)"
    "param_submitResultTime ex_params_dated = None"
    by (simp_all add: ex_params_def ex_params_dated_def)
  have 1: "\<exists>pl. requests (snd (createPaymentRequest (ex_env (ex_remote Null)) ex_params
                 (new_PaymentManager ex_config))) = [PostPayment pl]
          \<and> req_payByTime pl = toISOString (ex_env (ex_remote Null)) (1700000000000 + 43200000)
          \<and> req_submitResultTime pl =
              toISOString (ex_env (ex_remote Null)) (1700000000001 + 86400000)"
    using createPaymentRequest_default_times [OF a, of ex_params "ex_env (ex_remote Null)"]
    by (simp add: c d p)
  have 2: "\<exists>pl. requests (snd (createPaymentRequest (ex_env (ex_remote Null)) ex_params_dated
                 (new_PaymentManager ex_config))) = [PostPayment pl]
          \<and> req_payByTime pl = toISOString (ex_env (ex_remote Null)) 1700000600000
          \<and> req_submitResultTime pl =
              toISOString (ex_env (ex_remote Null)) (1700000000000 + 86400000)"
    using createPaymentRequest_default_times [OF a, of ex_params_dated "ex_env (ex_remote Null)"]
    by (simp add: c d p)
  from a 1 2 show ?thesis by blast
qed

text \<open>
  C9. \<^verbatim>\<open>stopStatusMonitoring\<close> leaves the Payment Store as it is, in every state of the
  manager. It clears the handle; when a handle was held, the timer of that handle is no
  longer set and the manager no longer monitors. Whatever was done with the manager since
  its construction, no timer of the manager is set after the stop.
\<close>

theorem stopStatusMonitoring_keeps_store:
  "pendingPayments (stopStatusMonitoring st) = pendingPayments st
   \<and> statusMonitorInterval (stopStatusMonitoring st) = None
   \<and> (\<forall>t. statusMonitorInterval st = Some t \<longrightarrow>
          t \<notin> fst ` set (timers (stopStatusMonitoring st))
        \<and> \<not> isMonitoring (stopStatusMonitoring st))
   \<and> timers (stopStatusMonitoring (run cfg acts)) = []"
proof (intro conjI allI impI)
  show "pendingPayments (stopStatusMonitoring st) = pendingPayments st"
    by (simp add: stopStatusMonitoring_def clearInterval_def console_log_def
        split: option.splits)
  show "statusMonitorInterval (stopStatusMonitoring st) = None"
    by (simp add: stopStatusMonitoring_def clearInterval_def console_log_def
        split: option.splits)
  show "t \<notin> fst ` set (timers (stopStatusMonitoring st))"
    if "statusMonitorInterval st = Some t" for t
    using that
    by (simp add: stopStatusMonitoring_def clearInterval_def console_log_def cleared_timer)
  show "\<not> isMonitoring (stopStatusMonitoring st)"
    if "statusMonitorInterval st = Some t" for t
    using that by (simp add: stopStatusMonitoring_def clearInterval_def console_log_def)
  show "timers (stopStatusMonitoring (run cfg acts)) = []"
    using run_timer_inv by (rule stop_timers)
qed

theorem stopStatusMonitoring_keeps_store_witness:
  "statusMonitorInterval ex_tracking_monitored = Some 0
   \<and> timers ex_tracking_monitored = [(0, 5000)]
   \<and> pendingPayments (stopStatusMonitoring ex_tracking_monitored) = pendingPayments ex_tracking
   \<and> 0 \<notin> fst ` set (timers (stopStatusMonitoring ex_tracking_monitored))
   \<and> \<not> isMonitoring (stopStatusMonitoring ex_tracking_monitored)"
proof -
  have h: "statusMonitorInterval ex_tracking_monitored = Some 0"
    by (simp add: ex_tracking_monitored_def ex_tracking_def startStatusMonitoring_def
        new_PaymentManager_def setInterval_def console_log_def Let_def)
  have t: "timers ex_tracking_monitored = [(0, 5000)]"
    by (simp add: ex_tracking_monitored_def ex_tracking_def startStatusMonitoring_def
        new_PaymentManager_def setInterval_def console_log_def Let_def)
  have p: "pendingPayments ex_tracking_monitored = pendingPayments ex_tracking"
    by (simp add: ex_tracking_monitored_def ex_tracking_def startStatusMonitoring_def
        new_PaymentManager_def setInterval_def console_log_def Let_def)
  show ?thesis
    using h t p
      stopStatusMonitoring_keeps_store [of ex_tracking_monitored ex_config
        "[] :: (nat env \<times> nat action) list"]
    by simp
qed

end
